theory Spec2Isabelle
  imports Main "HOL-Library.Sublist"
begin

section \<open>Values shared by the three managers\<close>

text \<open>
  A JavaScript \<^verbatim>\<open>Error\<close>: its message and, for the errors of the WebDAV client, the
  HTTP status it carries (\<^verbatim>\<open>error.status\<close>; undefined is \<open>None\<close>).
\<close>

datatype js_error = Error (message: string) (status: "nat option")

text \<open>
  The credentials object that the renderer passes to \<^verbatim>\<open>saveCredentials\<close> and
  \<^verbatim>\<open>testConnection\<close>, and that \<^verbatim>\<open>loadCredentials\<close> returns. A property that is
  undefined or null is \<open>None\<close>. Timestamps are ISO-8601 strings in the source
  (\<^verbatim>\<open>new Date().toISOString()\<close>); here each is the instant it denotes, in milliseconds,
  since \<^verbatim>\<open>toISOString\<close> and \<^verbatim>\<open>new Date(string)\<close> are inverse on them.
\<close>

record credentials =
  cred_id :: "string option"
  cred_name :: string
  cred_url :: string
  cred_authType :: string
  cred_username :: "string option"
  cred_password :: "string option"
  cred_token :: "string option"
  cred_clientId :: "string option"
  cred_clientSecret :: "string option"
  cred_lastConnected :: "int option"
  cred_lastLocalFolder :: "string option"

section \<open>credential-manager.js\<close>

text \<open>The public record of a connection (\<^verbatim>\<open>publicData\<close>), one element of \<^verbatim>\<open>connections\<close>.\<close>

record connection =
  name :: string
  url :: string
  authType :: string
  username :: "string option"
  lastConnected :: int
  lastLocalFolder :: "string option"
  conn_id :: string

text \<open>
  The object \<^verbatim>\<open>sensitiveData\<close> that is serialized and encrypted: which properties it has
  depends on the authType; for any other authType it is \<^verbatim>\<open>{}\<close>.
\<close>

record secret_bundle =
  s_username :: "string option"
  s_password :: "string option"
  s_token :: "string option"
  s_clientId :: "string option"
  s_clientSecret :: "string option"

text \<open>
  The JSON object in the body of the token endpoint's answer, as far as
  \<^verbatim>\<open>requestNewToken\<close> reads it; a property that is absent is \<open>None\<close>, and a
  lifetime is a whole number of seconds.
\<close>

record token_json =
  access_token :: "string option"
  expires_in :: "int option"
  token_type :: "string option"
  error_description :: "string option"
  error :: "string option"

text \<open>
  The library functions the managers call, as parameters: CryptoJS's passphrase-based
  \<^verbatim>\<open>AES.encrypt(data, key).toString()\<close> (its first argument here is the random salt it
  draws) and \<^verbatim>\<open>AES.decrypt(data, key).toString(CryptoJS.enc.Utf8)\<close>, either of which may
  throw; \<^verbatim>\<open>JSON.stringify\<close> and \<^verbatim>\<open>JSON.parse\<close> on secret bundles, and
  \<^verbatim>\<open>JSON.parse\<close> on the body of a token response (an error when the body is not the
  text of a JSON object); the hexadecimal MD5 digest; and the decimal text of a number
  (\<^verbatim>\<open>toString\<close>, template strings). The key is what
  \<^verbatim>\<open>store.get('encryptionSalt')\<close> returns, which is undefined (\<open>None\<close>) when the store
  holds none.
\<close>

record platform =
  AES_encrypt :: "string \<Rightarrow> string \<Rightarrow> string option \<Rightarrow> js_error + string"
  AES_decrypt :: "string \<Rightarrow> string option \<Rightarrow> js_error + string"
  JSON_stringify :: "secret_bundle \<Rightarrow> string"
  JSON_parse :: "string \<Rightarrow> js_error + secret_bundle"
  JSON_parse_token :: "string \<Rightarrow> js_error + token_json"
  md5_hex :: "string \<Rightarrow> string"
  num_toString :: "int \<Rightarrow> string"

text \<open>
  The manager: the three keys of its electron-store (\<^verbatim>\<open>connections\<close>,
  \<^verbatim>\<open>sensitiveData\<close>, \<^verbatim>\<open>encryptionSalt\<close>) and whether \<^verbatim>\<open>setOAuth2Manager\<close> has injected
  the OAuth2 manager (main.js does so when the process starts). The object
  \<^verbatim>\<open>sensitiveData\<close> is a map from connection ids to ciphertexts: its own properties.
  Reads and writes of the store are taken to succeed.
\<close>

record credential_manager =
  connections :: "connection list"
  sensitiveData :: "string \<rightharpoonup> string"
  encryptionSalt :: "string option"
  oauth2Manager_set :: bool

text \<open>\<^verbatim>\<open>Array.prototype.findIndex\<close>: the first index whose element satisfies the test.\<close>

fun findIndex :: "('a \<Rightarrow> bool) \<Rightarrow> 'a list \<Rightarrow> nat option" where
  "findIndex P [] = None"
| "findIndex P (x # xs) =
     (if P x then Some 0 else map_option Suc (findIndex P xs))"

text \<open>\<^verbatim>\<open>array.splice(i, 1)\<close>.\<close>

definition splice1 :: "nat \<Rightarrow> 'a list \<Rightarrow> 'a list" where
  "splice1 i xs = take i xs @ drop (Suc i) xs"

definition generateConnectionId :: "platform \<Rightarrow> int \<Rightarrow> string \<Rightarrow> string" where
  "generateConnectionId p now nm =
     ''conn_'' @ take 8 (md5_hex p (nm @ num_toString p now))"

definition encryptData ::
  "platform \<Rightarrow> credential_manager \<Rightarrow> string \<Rightarrow> string \<Rightarrow> js_error + string" where
  "encryptData p cm salt data = AES_encrypt p salt data (encryptionSalt cm)"

definition decryptData ::
  "platform \<Rightarrow> credential_manager \<Rightarrow> string \<Rightarrow> js_error + string" where
  "decryptData p cm encryptedData = AES_decrypt p encryptedData (encryptionSalt cm)"

text \<open>The \<^verbatim>\<open>publicData\<close> object of \<^verbatim>\<open>saveCredentials\<close>, for the id chosen.\<close>

definition publicData :: "int \<Rightarrow> string \<Rightarrow> credentials \<Rightarrow> connection" where
  "publicData now connectionId c =
     \<lparr> name = cred_name c,
       url = cred_url c,
       authType = cred_authType c,
       username = (if cred_authType c = ''basic'' then cred_username c else None),
       lastConnected = now,
       lastLocalFolder =
         (case cred_lastLocalFolder c of
            None \<Rightarrow> None
          | Some f \<Rightarrow> if f = [] then None else Some f),
       conn_id = connectionId \<rparr>"

text \<open>The \<^verbatim>\<open>sensitiveData\<close> object of \<^verbatim>\<open>saveCredentials\<close>.\<close>

definition sensitiveOf :: "credentials \<Rightarrow> secret_bundle" where
  "sensitiveOf c =
     (if cred_authType c = ''basic'' then
        \<lparr> s_username = cred_username c, s_password = cred_password c,
          s_token = None, s_clientId = None, s_clientSecret = None \<rparr>
      else if cred_authType c = ''bearer'' then
        \<lparr> s_username = None, s_password = None,
          s_token = cred_token c, s_clientId = None, s_clientSecret = None \<rparr>
      else if cred_authType c = ''oauth2'' then
        \<lparr> s_username = None, s_password = None,
          s_token = None, s_clientId = cred_clientId c,
          s_clientSecret = cred_clientSecret c \<rparr>
      else
        \<lparr> s_username = None, s_password = None,
          s_token = None, s_clientId = None, s_clientSecret = None \<rparr>)"

text \<open>
  \<^verbatim>\<open>saveCredentials\<close>, at the instant \<open>now\<close> (which both \<^verbatim>\<open>Date.now()\<close> in
  \<^verbatim>\<open>generateConnectionId\<close> and \<^verbatim>\<open>new Date()\<close> read) and with the cipher drawing
  \<open>salt\<close>. An empty id is falsy, so a new one is generated for it. Whatever is thrown is
  rethrown with the prefix; the cipher is called before the first write to the store.
\<close>

definition saveCredentials ::
  "platform \<Rightarrow> int \<Rightarrow> string \<Rightarrow> credential_manager \<Rightarrow> credentials
     \<Rightarrow> js_error + (string \<times> credential_manager)" where
  "saveCredentials p now salt cm c =
     (let connectionId =
            (case cred_id c of
               None \<Rightarrow> generateConnectionId p now (cred_name c)
             | Some i \<Rightarrow> if i = [] then generateConnectionId p now (cred_name c) else i);
          pub = publicData now connectionId c
      in case encryptData p cm salt (JSON_stringify p (sensitiveOf c)) of
           Inl e \<Rightarrow> Inl (Error (''Failed to save credentials: '' @ message e) None)
         | Inr encryptedSensitiveData \<Rightarrow>
             Inr (connectionId,
               cm\<lparr> sensitiveData := (sensitiveData cm)(connectionId \<mapsto> encryptedSensitiveData),
                   connections :=
                     (case findIndex (\<lambda>conn. conn_id conn = connectionId) (connections cm) of
                        Some existingIndex \<Rightarrow> (connections cm)[existingIndex := pub]
                      | None \<Rightarrow> connections cm @ [pub]) \<rparr>))"

text \<open>The object \<^verbatim>\<open>{...connection, ...sensitiveData}\<close>: a property of the bundle wins.\<close>

definition fullCredentials :: "connection \<Rightarrow> secret_bundle \<Rightarrow> credentials" where
  "fullCredentials conn s =
     \<lparr> cred_id = Some (conn_id conn),
       cred_name = name conn,
       cred_url = url conn,
       cred_authType = authType conn,
       cred_username = (case s_username s of Some u \<Rightarrow> Some u | None \<Rightarrow> username conn),
       cred_password = s_password s,
       cred_token = s_token s,
       cred_clientId = s_clientId s,
       cred_clientSecret = s_clientSecret s,
       cred_lastConnected = Some (lastConnected conn),
       cred_lastLocalFolder = lastLocalFolder conn \<rparr>"

definition load_prefix :: string where
  "load_prefix = ''Failed to load credentials: ''"

definition connection_not_found :: js_error where
  "connection_not_found = Error (load_prefix @ ''Connection not found'') None"

definition credentials_not_found :: js_error where
  "credentials_not_found =
     Error (load_prefix @
       ''Credentials not found in store. Please edit this connection to re-enter your credentials.'')
       None"

text \<open>
  The property names that a plain object inherits from \<^verbatim>\<open>Object.prototype\<close>:
  \<^verbatim>\<open>allSensitiveData[connectionId]\<close> reads a function or an object under them when the
  store holds no ciphertext of that name. No id that \<^verbatim>\<open>generateConnectionId\<close> makes
  is one of them. (The writes of \<^verbatim>\<open>saveCredentials\<close> are modelled for the other ids.)
\<close>

definition inherited_property :: "string \<Rightarrow> bool" where
  "inherited_property k =
     (k \<in> set [''constructor'', ''__proto__'', ''hasOwnProperty'', ''isPrototypeOf'',
               ''propertyIsEnumerable'', ''toLocaleString'', ''toString'', ''valueOf'',
               ''__defineGetter__'', ''__defineSetter__'', ''__lookupGetter__'',
               ''__lookupSetter__''])"

text \<open>
  \<^verbatim>\<open>loadCredentials\<close>. An empty ciphertext is falsy, so it is reported like a missing
  one. The errors of the cipher and of \<^verbatim>\<open>JSON.parse\<close> are rethrown with the prefix.
  Where no ciphertext is stored and the id is an inherited property name, the value read
  is truthy and no string: CryptoJS finds neither salt nor ciphertext in it and decrypts
  it to the empty text, which \<^verbatim>\<open>JSON.parse\<close> is then given.
\<close>

definition loadCredentials ::
  "platform \<Rightarrow> credential_manager \<Rightarrow> string \<Rightarrow> js_error + credentials" where
  "loadCredentials p cm connectionId =
     (case find (\<lambda>conn. conn_id conn = connectionId) (connections cm) of
        None \<Rightarrow> Inl connection_not_found
      | Some conn \<Rightarrow>
          (case sensitiveData cm connectionId of
             None \<Rightarrow>
               if inherited_property connectionId then
                 (case JSON_parse p [] of
                    Inl e \<Rightarrow> Inl (Error (load_prefix @ message e) None)
                  | Inr s \<Rightarrow> Inr (fullCredentials conn s))
               else Inl credentials_not_found
           | Some encryptedSensitiveData \<Rightarrow>
               if encryptedSensitiveData = [] then Inl credentials_not_found
               else
                 (case decryptData p cm encryptedSensitiveData of
                    Inl e \<Rightarrow> Inl (Error (load_prefix @ message e) None)
                  | Inr decryptedData \<Rightarrow>
                      (case JSON_parse p decryptedData of
                         Inl e \<Rightarrow> Inl (Error (load_prefix @ message e) None)
                       | Inr s \<Rightarrow> Inr (fullCredentials conn s)))))"

text \<open>\<^verbatim>\<open>updateLastConnected\<close>, at the instant \<open>now\<close>.\<close>

definition updateLastConnected ::
  "int \<Rightarrow> credential_manager \<Rightarrow> string \<Rightarrow> credential_manager" where
  "updateLastConnected now cm connectionId =
     (case findIndex (\<lambda>conn. conn_id conn = connectionId) (connections cm) of
        Some i \<Rightarrow>
          cm\<lparr> connections := (connections cm)[i := ((connections cm) ! i)\<lparr> lastConnected := now \<rparr>] \<rparr>
      | None \<Rightarrow> cm)"

text \<open>\<^verbatim>\<open>updateLastLocalFolder\<close>.\<close>

definition updateLastLocalFolder ::
  "credential_manager \<Rightarrow> string \<Rightarrow> string option \<Rightarrow> credential_manager" where
  "updateLastLocalFolder cm connectionId folderPath =
     (case findIndex (\<lambda>conn. conn_id conn = connectionId) (connections cm) of
        Some i \<Rightarrow>
          cm\<lparr> connections :=
                (connections cm)[i := ((connections cm) ! i)\<lparr> lastLocalFolder := folderPath \<rparr>] \<rparr>
      | None \<Rightarrow> cm)"

text \<open>
  \<^verbatim>\<open>clearAll\<close>: \<^verbatim>\<open>store.clear()\<close> removes every key, the encryption key included; the
  reads that follow see the defaults.
\<close>

definition clearAll :: "credential_manager \<Rightarrow> credential_manager" where
  "clearAll cm = cm\<lparr> connections := [], sensitiveData := Map.empty, encryptionSalt := None \<rparr>"

text \<open>
  \<^verbatim>\<open>getLastConnection\<close>: \<^verbatim>\<open>Array.prototype.sort\<close> is stable, and the comparator
  \<^verbatim>\<open>new Date(b.lastConnected) - new Date(a.lastConnected)\<close> puts the later instant first.
\<close>

definition getLastConnection :: "credential_manager \<Rightarrow> connection option" where
  "getLastConnection cm =
     (case connections cm of
        [] \<Rightarrow> None
      | _ \<Rightarrow>
          (case sort_key (\<lambda>conn. - lastConnected conn) (connections cm) of
             [] \<Rightarrow> None
           | first # _ \<Rightarrow> Some first))"

section \<open>oauth2-manager.js\<close>

text \<open>An entry of the map \<^verbatim>\<open>tokens\<close>; \<open>expiresAt\<close> is in milliseconds, as \<^verbatim>\<open>Date.now()\<close>.\<close>

record token_entry =
  accessToken :: string
  expiresAt :: int
  tokenType :: string

text \<open>
  What \<^verbatim>\<open>https.request\<close> delivers: an \<^verbatim>\<open>error\<close> event with its message, or a
  response with its status code and body.
\<close>

datatype http_reply = ConnError string | Response nat string

text \<open>
  The points of the run that the console output marks and that the properties count:
  a call of \<^verbatim>\<open>getAccessToken\<close> with its \<^verbatim>\<open>forceRefresh\<close>, an HTTPS request to the token
  endpoint, a call of \<^verbatim>\<open>initializeClient\<close>, a call of \<^verbatim>\<open>getDirectoryContents\<close>.
\<close>

datatype event =
  GetAccessToken "string option" bool
  | TokenRequest "string option"
  | InitializeClient
  | GetDirectoryContents

text \<open>A timer of the event loop that has not fired: when it is due and what its callback closes over.\<close>

record pending_timer =
  fireAt :: int
  t_connectionId :: "string option"
  t_clientId :: "string option"
  t_clientSecret :: "string option"

text \<open>
  The main process as the OAuth2 manager sees it: the clock (\<^verbatim>\<open>Date.now()\<close>), the timers
  of the event loop by handle, the next fresh handle, the marks written so far, and the
  two maps of the one \<^verbatim>\<open>OAuth2Manager\<close> that main.js creates. A connection id is
  undefined (\<open>None\<close>) for credentials that were never saved. Each call of the managers
  runs to its end before the next one or a timer starts.
\<close>

record process =
  clock :: int
  timers :: "nat \<rightharpoonup> pending_timer"
  next_timer :: nat
  console :: "event list"
  tokens :: "string option \<rightharpoonup> token_entry"
  refreshTimers :: "string option \<rightharpoonup> nat"

text \<open>
  The network: the answer to the n-th request to the token endpoint and the outcome of the
  n-th \<^verbatim>\<open>getDirectoryContents\<close> (an error, or the number of items), each with the time
  in milliseconds it takes.
\<close>

record environment =
  token_endpoint :: "nat \<Rightarrow> nat \<times> http_reply"
  webdav_server :: "nat \<Rightarrow> nat \<times> (js_error + nat)"

definition isTokenRequest :: "event \<Rightarrow> bool" where
  "isTokenRequest ev = (case ev of TokenRequest _ \<Rightarrow> True | _ \<Rightarrow> False)"

definition token_requests :: "process \<Rightarrow> nat" where
  "token_requests s = length (filter isTokenRequest (console s))"

definition listings :: "process \<Rightarrow> nat" where
  "listings s = count_list (console s) GetDirectoryContents"

definition truthy :: "string option \<Rightarrow> bool" where
  "truthy v = (case v of None \<Rightarrow> False | Some x \<Rightarrow> x \<noteq> [])"

text \<open>
  Node's \<^verbatim>\<open>setTimeout\<close>: a delay below 1 or above 2147483647 milliseconds is set to 1.
\<close>

definition setTimeout_delay :: "int \<Rightarrow> int" where
  "setTimeout_delay d = (if d < 1 \<or> 2147483647 < d then 1 else d)"

definition makeHttpsRequest :: "platform \<Rightarrow> http_reply \<Rightarrow> js_error + string" where
  "makeHttpsRequest p r =
     (case r of
        ConnError m \<Rightarrow> Inl (Error m None)
      | Response statusCode d \<Rightarrow>
          if 200 \<le> statusCode \<and> statusCode < 300 then Inr d
          else Inl (Error (''HTTP '' @ num_toString p (int statusCode) @ '': '' @ d) None))"

definition scheduleTokenRefresh ::
  "process \<Rightarrow> string option \<Rightarrow> string option \<Rightarrow> string option \<Rightarrow> int \<Rightarrow> process" where
  "scheduleTokenRefresh s connectionId clientId clientSecret delayMs =
     (let s1 = (case refreshTimers s connectionId of
                  Some existingTimer \<Rightarrow> s\<lparr> timers := (timers s)(existingTimer := None) \<rparr>
                | None \<Rightarrow> s);
          refreshDelay = max (delayMs - 5 * 60 * 1000) 60000;
          timer = next_timer s1
      in s1\<lparr> timers := (timers s1)(timer \<mapsto>
                 \<lparr> fireAt = clock s1 + setTimeout_delay refreshDelay,
                   t_connectionId = connectionId,
                   t_clientId = clientId,
                   t_clientSecret = clientSecret \<rparr>),
             next_timer := Suc timer,
             refreshTimers := (refreshTimers s1)(connectionId \<mapsto> timer) \<rparr>)"

definition token_prefix :: string where
  "token_prefix = ''Failed to obtain access token: ''"

text \<open>The message of the error thrown when the answer has no (or an empty) \<^verbatim>\<open>access_token\<close>.\<close>

definition no_token_message :: "token_json \<Rightarrow> string" where
  "no_token_message tokenData =
     ''Token request failed: '' @
       (if truthy (error_description tokenData) then the (error_description tokenData)
        else if truthy (error tokenData) then the (error tokenData)
        else ''Unknown error'')"

text \<open>
  \<^verbatim>\<open>requestNewToken\<close>: the request is answered after its latency, and \<^verbatim>\<open>Date.now()\<close> is
  read then. \<^verbatim>\<open>expires_in || 3600\<close> takes 3600 for an absent and for a zero lifetime.
  The numbers of the source are IEEE doubles; the integers here are what it computes as
  long as the operands and the result of each operation are at most 9007199254740992 in
  absolute value (\<open>exact_number\<close> below).
\<close>

definition requestNewToken ::
  "platform \<Rightarrow> environment \<Rightarrow> process \<Rightarrow> string option \<Rightarrow> string option \<Rightarrow> string option
     \<Rightarrow> (js_error + string) \<times> process" where
  "requestNewToken p env s connectionId clientId clientSecret =
     (let (latency, reply) = token_endpoint env (token_requests s);
          s1 = s\<lparr> console := console s @ [TokenRequest connectionId],
                 clock := clock s + int latency \<rparr>
      in case makeHttpsRequest p reply of
           Inl e \<Rightarrow> (Inl (Error (token_prefix @ message e) None), s1)
         | Inr response \<Rightarrow>
             (case JSON_parse_token p response of
                Inl e \<Rightarrow> (Inl (Error (token_prefix @ message e) None), s1)
              | Inr tokenData \<Rightarrow>
                  if truthy (access_token tokenData) then
                    (let expiresIn =
                           (case expires_in tokenData of
                              None \<Rightarrow> 3600
                            | Some e \<Rightarrow> if e = 0 then 3600 else e) - 300;
                         expiresAt = clock s1 + expiresIn * 1000;
                         s2 = s1\<lparr> tokens := (tokens s1)(connectionId \<mapsto>
                                \<lparr> accessToken = the (access_token tokenData),
                                  expiresAt = expiresAt,
                                  tokenType =
                                    (if truthy (token_type tokenData)
                                     then the (token_type tokenData) else ''Bearer'') \<rparr>) \<rparr>
                     in (Inr (the (access_token tokenData)),
                         scheduleTokenRefresh s2 connectionId clientId clientSecret
                           (expiresIn * 1000)))
                  else
                    (Inl (Error (token_prefix @ no_token_message tokenData) None), s1)))"

definition getAccessToken ::
  "platform \<Rightarrow> environment \<Rightarrow> process \<Rightarrow> string option \<Rightarrow> string option \<Rightarrow> string option
     \<Rightarrow> bool \<Rightarrow> (js_error + string) \<times> process" where
  "getAccessToken p env s connectionId clientId clientSecret forceRefresh =
     (let s1 = s\<lparr> console := console s @ [GetAccessToken connectionId forceRefresh] \<rparr>
      in case tokens s1 connectionId of
           Some tokenData \<Rightarrow>
             if \<not> forceRefresh \<and> expiresAt tokenData > clock s1
             then (Inr (accessToken tokenData), s1)
             else requestNewToken p env s1 connectionId clientId clientSecret
         | None \<Rightarrow> requestNewToken p env s1 connectionId clientId clientSecret)"

text \<open>
  A timer of \<^verbatim>\<open>scheduleTokenRefresh\<close> fires: it leaves the event loop's table, not
  before it is due, and its callback runs. A handle that is not pending does nothing.
\<close>

definition fireTimer :: "platform \<Rightarrow> environment \<Rightarrow> process \<Rightarrow> nat \<Rightarrow> process" where
  "fireTimer p env s timer =
     (case timers s timer of
        None \<Rightarrow> s
      | Some t \<Rightarrow>
          (let s1 = s\<lparr> timers := (timers s)(timer := None),
                         clock := max (clock s) (fireAt t) \<rparr>
           in case requestNewToken p env s1 (t_connectionId t) (t_clientId t) (t_clientSecret t) of
                (Inr _, s2) \<Rightarrow> s2
              | (Inl _, s2) \<Rightarrow>
                  s2\<lparr> tokens := (tokens s2)(t_connectionId t := None),
                      refreshTimers := (refreshTimers s2)(t_connectionId t := None) \<rparr>))"

definition clearConnection :: "process \<Rightarrow> string option \<Rightarrow> process" where
  "clearConnection s connectionId =
     (let s1 = (case refreshTimers s connectionId of
                  Some timer \<Rightarrow>
                    s\<lparr> timers := (timers s)(timer := None),
                       refreshTimers := (refreshTimers s)(connectionId := None) \<rparr>
                | None \<Rightarrow> s)
      in s1\<lparr> tokens := (tokens s1)(connectionId := None) \<rparr>)"

text \<open>
  \<^verbatim>\<open>deleteCredentials\<close> of credential-manager.js, which reaches into the OAuth2 manager.
\<close>

definition deleteCredentials ::
  "credential_manager \<Rightarrow> process \<Rightarrow> string \<Rightarrow> bool \<times> credential_manager \<times> process" where
  "deleteCredentials cm s connectionId =
     (case findIndex (\<lambda>conn. conn_id conn = connectionId) (connections cm) of
        Some connectionIndex \<Rightarrow>
          (let connection = connections cm ! connectionIndex;
               s' = (if oauth2Manager_set cm \<and> authType connection = ''oauth2''
                     then clearConnection s (Some connectionId) else s)
           in (True,
               cm\<lparr> connections := splice1 connectionIndex (connections cm),
                   sensitiveData := (sensitiveData cm)(connectionId := None) \<rparr>,
               s'))
      | None \<Rightarrow> (False, cm, s))"

section \<open>The WebDAV manager (\<^verbatim>\<open>class WebDAVManager\<close>)\<close>

text \<open>The \<^verbatim>\<open>authConfig\<close> that \<^verbatim>\<open>initializeClient\<close> hands to \<^verbatim>\<open>createClient\<close>.\<close>

datatype authConfig =
  NoAuth
  | Password "string option" "string option"
  | Token "string option"

record webdav_client =
  client_url :: string
  client_auth :: authConfig

record webdav_manager =
  client :: "webdav_client option"
  currentCredentials :: "credentials option"
  wd_oauth2Manager_set :: bool

definition isForcedRefresh :: "event \<Rightarrow> bool" where
  "isForcedRefresh ev = (case ev of GetAccessToken _ force \<Rightarrow> force | _ \<Rightarrow> False)"

definition forced_refreshes :: "process \<Rightarrow> nat" where
  "forced_refreshes s = length (filter isForcedRefresh (console s))"

definition initializations :: "process \<Rightarrow> nat" where
  "initializations s = count_list (console s) InitializeClient"

text \<open>
  \<^verbatim>\<open>initializeClient\<close>; the WebDAV module is taken to load, and \<^verbatim>\<open>createClient\<close> to
  return a client. The manager keeps its old client when the call throws.
\<close>

definition initializeClient ::
  "platform \<Rightarrow> environment \<Rightarrow> webdav_manager \<Rightarrow> process \<Rightarrow> credentials
     \<Rightarrow> (js_error + unit) \<times> webdav_manager \<times> process" where
  "initializeClient p env wm s c =
     (let s0 = s\<lparr> console := console s @ [InitializeClient] \<rparr>;
          created = (\<lambda>authConfig.
            wm\<lparr> client := Some \<lparr> client_url = cred_url c, client_auth = authConfig \<rparr>,
                currentCredentials := Some c \<rparr>)
      in if cred_authType c = ''basic'' then
           (Inr (), created (Password (cred_username c) (cred_password c)), s0)
         else if cred_authType c = ''bearer'' then
           (Inr (), created (Token (cred_token c)), s0)
         else if cred_authType c = ''oauth2'' then
           (if \<not> wd_oauth2Manager_set wm then
              (Inl (Error ''OAuth2 manager not available'' None), wm, s0)
            else
              (case getAccessToken p env s0 (cred_id c) (cred_clientId c) (cred_clientSecret c)
                      False of
                 (Inl e, s1) \<Rightarrow> (Inl e, wm, s1)
               | (Inr token, s1) \<Rightarrow> (Inr (), created (Token (Some token)), s1)))
         else (Inr (), created NoAuth, s0))"

text \<open>\<^verbatim>\<open>this.client.getDirectoryContents('')\<close>: the server's next outcome, after its latency.\<close>

definition getDirectoryContents :: "environment \<Rightarrow> process \<Rightarrow> (js_error + nat) \<times> process" where
  "getDirectoryContents env s =
     (let (latency, outcome) = webdav_server env (listings s)
      in (outcome,
          s\<lparr> console := console s @ [GetDirectoryContents],
             clock := clock s + int latency \<rparr>))"

text \<open>
  The block of \<^verbatim>\<open>testConnection\<close> that logs the authorization header: for oauth2 it asks
  the OAuth2 manager for the token once more, which can throw (as does calling a manager
  that is null).
\<close>

definition headerToken ::
  "platform \<Rightarrow> environment \<Rightarrow> webdav_manager \<Rightarrow> process \<Rightarrow> credentials
     \<Rightarrow> (js_error + string option) \<times> process" where
  "headerToken p env wm s c =
     (if cred_authType c = ''bearer'' \<or> cred_authType c = ''oauth2'' then
        (if cred_authType c = ''bearer'' then (Inr (cred_token c), s)
         else
           (case currentCredentials wm of
              None \<Rightarrow> (Inr None, s)
            | Some cc \<Rightarrow>
                if cred_authType cc = ''oauth2'' then
                  (if \<not> wd_oauth2Manager_set wm then
                     (Inl (Error ''Cannot read properties of null'' None), s)
                   else
                     (case getAccessToken p env s (cred_id c) (cred_clientId c)
                             (cred_clientSecret c) False of
                        (Inl e, s1) \<Rightarrow> (Inl e, s1)
                      | (Inr token, s1) \<Rightarrow> (Inr (Some token), s1)))
                else (Inr None, s)))
      else (Inr None, s))"

text \<open>The \<^verbatim>\<open>try\<close> block of \<^verbatim>\<open>testConnection\<close>: what it throws, or the number of items listed.\<close>

definition firstAttempt ::
  "platform \<Rightarrow> environment \<Rightarrow> webdav_manager \<Rightarrow> process \<Rightarrow> credentials
     \<Rightarrow> (js_error + nat) \<times> webdav_manager \<times> process" where
  "firstAttempt p env wm s c =
     (case initializeClient p env wm s c of
        (Inl e, wm1, s1) \<Rightarrow> (Inl e, wm1, s1)
      | (Inr _, wm1, s1) \<Rightarrow>
          (case headerToken p env wm1 s1 c of
             (Inl e, s2) \<Rightarrow> (Inl e, wm1, s2)
           | (Inr _, s2) \<Rightarrow>
               (case getDirectoryContents env s2 of
                  (outcome, s3) \<Rightarrow> (outcome, wm1, s3))))"

text \<open>The inner \<^verbatim>\<open>try\<close> block of the \<^verbatim>\<open>catch\<close>: whatever it throws is answered by false.\<close>

definition retryWithFreshToken ::
  "platform \<Rightarrow> environment \<Rightarrow> webdav_manager \<Rightarrow> process \<Rightarrow> credentials
     \<Rightarrow> bool \<times> webdav_manager \<times> process" where
  "retryWithFreshToken p env wm s c =
     (if \<not> wd_oauth2Manager_set wm then (False, wm, s)
      else
        (case getAccessToken p env s (cred_id c) (cred_clientId c) (cred_clientSecret c) True of
           (Inl e, s1) \<Rightarrow> (False, wm, s1)
         | (Inr _, s1) \<Rightarrow>
             (case initializeClient p env wm s1 c of
                (Inl e, wm2, s2) \<Rightarrow> (False, wm2, s2)
              | (Inr _, wm2, s2) \<Rightarrow>
                  (case getAccessToken p env s2 (cred_id c) (cred_clientId c)
                          (cred_clientSecret c) False of
                     (Inl e, s3) \<Rightarrow> (False, wm2, s3)
                   | (Inr retryToken, s3) \<Rightarrow>
                       (case getDirectoryContents env s3 of
                          (Inl e, s4) \<Rightarrow> (False, wm2, s4)
                        | (Inr _, s4) \<Rightarrow> (True, wm2, s4))))))"

definition testConnection ::
  "platform \<Rightarrow> environment \<Rightarrow> webdav_manager \<Rightarrow> process \<Rightarrow> credentials
     \<Rightarrow> bool \<times> webdav_manager \<times> process" where
  "testConnection p env wm s c =
     (case firstAttempt p env wm s c of
        (Inr _, wm1, s1) \<Rightarrow> (True, wm1, s1)
      | (Inl err, wm1, s1) \<Rightarrow>
          if status err = Some 401 \<and> cred_authType c = ''oauth2''
          then retryWithFreshToken p env wm1 s1 c
          else (False, wm1, s1))"

section \<open>Predicates of the properties\<close>

text \<open>The token cache holds an entry for the id that has not expired at the process's clock.\<close>

definition cached :: "process \<Rightarrow> string option \<Rightarrow> bool" where
  "cached s k = (case tokens s k of None \<Rightarrow> False | Some e \<Rightarrow> clock s < expiresAt e)"

text \<open>
  An integer that a JavaScript number holds exactly, with every integer between it and
  zero: sums, differences and products of such integers are exact when their result is
  one too.
\<close>

definition exact_number :: "int \<Rightarrow> bool" where
  "exact_number n = (- 9007199254740992 \<le> n \<and> n \<le> 9007199254740992)"

text \<open>
  Every timer of the event loop that has not fired is the one that \<^verbatim>\<open>refreshTimers\<close>
  holds for its connection, and the handles in use are below the next fresh one.
\<close>

definition timers_registered :: "process \<Rightarrow> bool" where
  "timers_registered s =
     ((\<forall>h t. timers s h = Some t \<longrightarrow> refreshTimers s (t_connectionId t) = Some h) \<and>
      (\<forall>k h. refreshTimers s k = Some h \<longrightarrow> h < next_timer s))"

section \<open>A concrete platform, network and store for the examples\<close>

definition demo_token_json :: "string \<Rightarrow> int option \<Rightarrow> token_json" where
  "demo_token_json t e =
     \<lparr> access_token = Some t, expires_in = e, token_type = None,
       error_description = None, error = None \<rparr>"

definition demo_field :: "string \<Rightarrow> string option \<Rightarrow> string" where
  "demo_field k v = (case v of None \<Rightarrow> [] | Some x \<Rightarrow> k @ '':'' @ x @ '';'')"

text \<open>
  A stand-in for the libraries: a cipher that prefixes the key to the reversed text, a
  serializer that lists the properties present, parsers that know the texts of the
  examples, a constant digest.
\<close>

definition demo_platform :: platform where
  "demo_platform =
     \<lparr> AES_encrypt = (\<lambda>salt data key.
         case key of
           None \<Rightarrow> Inl (Error ''key is undefined'' None)
         | Some k \<Rightarrow> Inr (k @ rev data)),
       AES_decrypt = (\<lambda>encrypted key.
         case key of
           None \<Rightarrow> Inl (Error ''key is undefined'' None)
         | Some k \<Rightarrow>
             if take (length k) encrypted = k then Inr (rev (drop (length k) encrypted))
             else Inl (Error ''Malformed UTF-8 data'' None)),
       JSON_stringify = (\<lambda>b.
         demo_field ''username'' (s_username b) @ demo_field ''password'' (s_password b) @
         demo_field ''token'' (s_token b) @ demo_field ''clientId'' (s_clientId b) @
         demo_field ''clientSecret'' (s_clientSecret b)),
       JSON_parse = (\<lambda>text.
         if text = ''username:u;password:p;'' then
           Inr \<lparr> s_username = Some ''u'', s_password = Some ''p'', s_token = None,
                 s_clientId = None, s_clientSecret = None \<rparr>
         else if text = [] then Inl (Error ''Unexpected end of JSON input'' None)
         else Inl (Error ''Unexpected token'' None)),
       JSON_parse_token = (\<lambda>body.
         if body = ''access_token:T1;expires_in:3600;'' then
           Inr (demo_token_json ''T1'' (Some 3600))
         else if body = ''access_token:T1;expires_in:100;'' then
           Inr (demo_token_json ''T1'' (Some 100))
         else if body = ''access_token:T1;'' then
           Inr (demo_token_json ''T1'' None)
         else Inl (Error ''Unexpected token'' None)),
       md5_hex = (\<lambda>text. ''0123456789abcdef0123456789abcdef''),
       num_toString = (\<lambda>n. ''0'') \<rparr>"

text \<open>A token endpoint that always answers 200 with the body, and a WebDAV server.\<close>

definition demo_env :: "string \<Rightarrow> (nat \<Rightarrow> js_error + nat) \<Rightarrow> environment" where
  "demo_env body dav =
     \<lparr> token_endpoint = (\<lambda>n. (25, Response 200 body)),
       webdav_server = (\<lambda>n. (40, dav n)) \<rparr>"

definition start :: process where
  "start = \<lparr> clock = 1000000, timers = Map.empty, next_timer = 0, console = [],
             tokens = Map.empty, refreshTimers = Map.empty \<rparr>"

definition empty_store :: credential_manager where
  "empty_store = \<lparr> connections = [], sensitiveData = Map.empty,
                   encryptionSalt = Some ''key'', oauth2Manager_set = True \<rparr>"

definition demo_basic :: credentials where
  "demo_basic =
     \<lparr> cred_id = None, cred_name = ''dev'', cred_url = ''https://x/webdav'',
       cred_authType = ''basic'', cred_username = Some ''u'', cred_password = Some ''p'',
       cred_token = None, cred_clientId = None, cred_clientSecret = None,
       cred_lastConnected = None, cred_lastLocalFolder = None \<rparr>"

definition demo_oauth2 :: credentials where
  "demo_oauth2 =
     \<lparr> cred_id = Some ''conn_1'', cred_name = ''prod'', cred_url = ''https://y/webdav'',
       cred_authType = ''oauth2'', cred_username = None, cred_password = None,
       cred_token = None, cred_clientId = Some ''id'', cred_clientSecret = Some ''secret'',
       cred_lastConnected = None, cred_lastLocalFolder = None \<rparr>"

definition fresh_manager :: webdav_manager where
  "fresh_manager = \<lparr> client = None, currentCredentials = None, wd_oauth2Manager_set = True \<rparr>"

text \<open>A first call of \<^verbatim>\<open>getAccessToken\<close> in the starting process, answered with T1 for 3600 seconds.\<close>

definition demo_first :: "(js_error + string) \<times> process" where
  "demo_first =
     getAccessToken demo_platform (demo_env ''access_token:T1;expires_in:3600;'' (\<lambda>n. Inr 0))
       start (Some ''conn_1'') (Some ''id'') (Some ''secret'') False"

text \<open>The store after the basic-auth example was saved at instant 1000, and one without its secret.\<close>

definition saved_basic :: credential_manager where
  "saved_basic =
     empty_store\<lparr>
       sensitiveData := [''conn_01234567'' \<mapsto> ''key'' @ rev ''username:u;password:p;''],
       connections :=
         [\<lparr> name = ''dev'', url = ''https://x/webdav'', authType = ''basic'',
            username = Some ''u'', lastConnected = 1000, lastLocalFolder = None,
            conn_id = ''conn_01234567'' \<rparr>] \<rparr>"

definition public_only :: credential_manager where
  "public_only = saved_basic\<lparr> sensitiveData := Map.empty \<rparr>"

text \<open>A store whose one record has the id \<open>constructor\<close> and no ciphertext.\<close>

definition constructor_only :: credential_manager where
  "constructor_only =
     empty_store\<lparr>
       connections :=
         [\<lparr> name = ''dev'', url = ''https://x/webdav'', authType = ''basic'',
            username = Some ''u'', lastConnected = 1000, lastLocalFolder = None,
            conn_id = ''constructor'' \<rparr>] \<rparr>"

text \<open>
  A first call of \<^verbatim>\<open>getAccessToken\<close> in the starting process, answered with T1 for 100
  seconds.
\<close>

definition demo_short :: "(js_error + string) \<times> process" where
  "demo_short =
     getAccessToken demo_platform (demo_env ''access_token:T1;expires_in:100;'' (\<lambda>n. Inr 0))
       start (Some ''conn_1'') (Some ''id'') (Some ''secret'') False"

text \<open>The store holding one oauth2 connection, whose token the first call has cached.\<close>

definition saved_oauth2 :: credential_manager where
  "saved_oauth2 =
     empty_store\<lparr>
       sensitiveData := [''conn_1'' \<mapsto> ''key'' @ rev ''clientId:id;clientSecret:secret;''],
       connections :=
         [\<lparr> name = ''prod'', url = ''https://y/webdav'', authType = ''oauth2'',
            username = None, lastConnected = 1000, lastLocalFolder = None,
            conn_id = ''conn_1'' \<rparr>] \<rparr>"

text \<open>
  Two WebDAV servers: one that answers every listing with 404, and one that answers the
  first listing with 401 and lists three items afterwards.
\<close>

definition demo_not_found :: "nat \<Rightarrow> js_error + nat" where
  "demo_not_found n = Inl (Error ''Not Found'' (Some 404))"

definition demo_unauthorized_once :: "nat \<Rightarrow> js_error + nat" where
  "demo_unauthorized_once n = (if n = 0 then Inl (Error ''Unauthorized'' (Some 401)) else Inr 3)"

section \<open>Facts about the examples\<close>

lemma demo_endpoint: "token_endpoint (demo_env body dav) n = (25, Response 200 body)"
  by (simp add: demo_env_def)

lemma demo_parse_3600:
  "JSON_parse_token demo_platform ''access_token:T1;expires_in:3600;'' =
     Inr (demo_token_json ''T1'' (Some 3600))"
  by (simp add: demo_platform_def)

lemma demo_parse_100:
  "JSON_parse_token demo_platform ''access_token:T1;expires_in:100;'' =
     Inr (demo_token_json ''T1'' (Some 100))"
  by (simp add: demo_platform_def)

lemma demo_parse_none:
  "JSON_parse_token demo_platform ''access_token:T1;'' = Inr (demo_token_json ''T1'' None)"
  by (simp add: demo_platform_def)

lemma demo_token_json_sel:
  "access_token (demo_token_json t e) = Some t"
  "expires_in (demo_token_json t e) = e"
  "token_type (demo_token_json t e) = None"
  by (simp_all add: demo_token_json_def)

lemma start_sel:
  "clock start = 1000000" "timers start = Map.empty" "next_timer start = 0"
  "console start = []" "tokens start = Map.empty" "refreshTimers start = Map.empty"
  by (simp_all add: start_def)

section \<open>The OAuth2 token cache\<close>

subsection \<open>Scheduling a refresh\<close>

lemma scheduleTokenRefresh_tokens [simp]:
  "tokens (scheduleTokenRefresh s k cid cs d) = tokens s"
  by (simp add: scheduleTokenRefresh_def Let_def split: option.splits)

lemma scheduleTokenRefresh_clock [simp]:
  "clock (scheduleTokenRefresh s k cid cs d) = clock s"
  by (simp add: scheduleTokenRefresh_def Let_def split: option.splits)

lemma scheduleTokenRefresh_console [simp]:
  "console (scheduleTokenRefresh s k cid cs d) = console s"
  by (simp add: scheduleTokenRefresh_def Let_def split: option.splits)

lemma scheduleTokenRefresh_timer:
  "\<exists>h t. refreshTimers (scheduleTokenRefresh s k cid cs d) k = Some h \<and>
     timers (scheduleTokenRefresh s k cid cs d) h = Some t \<and>
     fireAt t = clock s + setTimeout_delay (max (d - 300000) 60000) \<and>
     t_connectionId t = k \<and> t_clientId t = cid \<and> t_clientSecret t = cs"
  by (simp add: scheduleTokenRefresh_def Let_def split: option.splits)

subsection \<open>A token request\<close>

text \<open>What a request returns and leaves behind when it is answered 2xx with an access token.\<close>

lemma requestNewToken_success:
  assumes "token_endpoint env (token_requests s) = (latency, Response code body)"
    and "200 \<le> code" and "code < 300"
    and "JSON_parse_token p body = Inr j"
    and "access_token j = Some t" and "t \<noteq> []"
  shows "requestNewToken p env s k cid cs =
     (Inr t,
      scheduleTokenRefresh
        (s\<lparr> console := console s @ [TokenRequest k],
            clock := clock s + int latency,
            tokens := (tokens s)(k \<mapsto>
              \<lparr> accessToken = t,
                expiresAt = clock s + int latency +
                  ((case expires_in j of None \<Rightarrow> 3600 | Some e \<Rightarrow> if e = 0 then 3600 else e)
                    - 300) * 1000,
                tokenType = (if truthy (token_type j) then the (token_type j) else ''Bearer'') \<rparr>) \<rparr>)
        k cid cs
        (((case expires_in j of None \<Rightarrow> 3600 | Some e \<Rightarrow> if e = 0 then 3600 else e)
           - 300) * 1000))"
  using assms by (simp add: requestNewToken_def makeHttpsRequest_def truthy_def Let_def)

lemma requestNewToken_console:
  "console (snd (requestNewToken p env s k cid cs)) = console s @ [TokenRequest k]"
  by (simp add: requestNewToken_def Let_def split: prod.splits sum.splits)

lemma requestNewToken_requests:
  "token_requests (snd (requestNewToken p env s k cid cs)) = Suc (token_requests s)"
  by (simp add: token_requests_def requestNewToken_console isTokenRequest_def)

lemma requestNewToken_stores:
  "requestNewToken p env s k cid cs = (Inr t, s') \<Longrightarrow>
     \<exists>e. tokens s' k = Some e \<and> accessToken e = t"
  by (auto simp add: requestNewToken_def Let_def split: prod.splits sum.splits if_splits)

text \<open>
  C3, as amended. A 2xx answer with an access token and a declared lifetime of \<open>E\<close>
  seconds, \<open>E\<close> not zero, makes the request succeed, and the entry it stores expires at
  now + (E - 300) seconds, now being the clock when the answer arrives, as long as now,
  the buffered lifetime in milliseconds and their sum are numbers that JavaScript holds
  exactly. No floor is applied: that instant is not in the past exactly when \<open>E\<close> is at
  least 300.
\<close>

theorem requestNewToken_expiresAt:
  assumes "token_endpoint env (token_requests s) = (latency, Response code body)"
    and "200 \<le> code" and "code < 300"
    and "JSON_parse_token p body = Inr j"
    and "access_token j = Some t" and "t \<noteq> []"
    and "expires_in j = Some E" and "E \<noteq> 0"
    and "exact_number (clock s + int latency)"
    and "exact_number ((E - 300) * 1000)"
    and "exact_number (clock s + int latency + (E - 300) * 1000)"
  shows "\<exists>s' e. requestNewToken p env s k cid cs = (Inr t, s') \<and>
           clock s' = clock s + int latency \<and>
           tokens s' k = Some e \<and> accessToken e = t \<and>
           expiresAt e = clock s' + (E - 300) * 1000 \<and>
           (clock s' \<le> expiresAt e) = (300 \<le> E)"
  using assms(1-8) by (simp add: requestNewToken_success)

theorem requestNewToken_expiresAt_witness:
  "\<exists>s' e. requestNewToken demo_platform
              (demo_env ''access_token:T1;expires_in:3600;'' (\<lambda>n. Inr 0))
              start (Some ''conn_1'') (Some ''id'') (Some ''secret'') = (Inr ''T1'', s') \<and>
           clock s' = 1000025 \<and>
           tokens s' (Some ''conn_1'') = Some e \<and> accessToken e = ''T1'' \<and>
           expiresAt e = 4300025"
proof -
  let ?env = "demo_env ''access_token:T1;expires_in:3600;'' (\<lambda>n. Inr 0)"
  have ep: "token_endpoint ?env (token_requests start) =
      (25, Response 200 ''access_token:T1;expires_in:3600;'')"
    by (rule demo_endpoint)
  have x: "exact_number (clock start + int 25)" "exact_number ((3600 - 300) * 1000)"
    "exact_number (clock start + int 25 + (3600 - 300) * 1000)"
    by (simp_all add: exact_number_def start_sel)
  have "(''T1'' :: string) \<noteq> []" and "(3600 :: int) \<noteq> 0" and "(200 :: nat) \<le> 200"
    and "(200 :: nat) < 300"
    by simp_all
  from requestNewToken_expiresAt [where k = "Some ''conn_1''" and cid = "Some ''id''"
      and cs = "Some ''secret''", OF ep this(3,4) demo_parse_3600
      demo_token_json_sel(1) this(1) demo_token_json_sel(2) this(2) x]
  show ?thesis by (auto simp add: start_sel)
qed

text \<open>
  C3 as stated fails: a declared lifetime of 100 seconds, answered at 1000025, stores an
  entry that expired at 800025, 200 seconds earlier.
\<close>

theorem requestNewToken_expiry_counterexample:
  "fst (requestNewToken demo_platform
          (demo_env ''access_token:T1;expires_in:100;'' (\<lambda>n. Inr 0))
          start (Some ''conn_1'') (Some ''id'') (Some ''secret'')) = Inr ''T1'' \<and>
   clock (snd (requestNewToken demo_platform
          (demo_env ''access_token:T1;expires_in:100;'' (\<lambda>n. Inr 0))
          start (Some ''conn_1'') (Some ''id'') (Some ''secret''))) = 1000025 \<and>
   map_option expiresAt (tokens (snd (requestNewToken demo_platform
          (demo_env ''access_token:T1;expires_in:100;'' (\<lambda>n. Inr 0))
          start (Some ''conn_1'') (Some ''id'') (Some ''secret''))) (Some ''conn_1''))
     = Some 800025"
proof -
  have "(''T1'' :: string) \<noteq> []" and "(200 :: nat) \<le> 200" and "(200 :: nat) < 300"
    by simp_all
  from requestNewToken_success [where k = "Some ''conn_1''" and cid = "Some ''id''"
      and cs = "Some ''secret''" and s = start, OF demo_endpoint this(2,3) demo_parse_100
      demo_token_json_sel(1) this(1)]
  show ?thesis by (simp add: demo_token_json_sel start_sel)
qed

text \<open>
  C10. A 2xx answer with an access token and no \<^verbatim>\<open>expires_in\<close> is treated as a
  lifetime of 3600 seconds: the entry expires 3300 seconds after the answer arrives.
\<close>

theorem requestNewToken_default_lifetime:
  assumes "token_endpoint env (token_requests s) = (latency, Response code body)"
    and "200 \<le> code" and "code < 300"
    and "JSON_parse_token p body = Inr j"
    and "access_token j = Some t" and "t \<noteq> []"
    and "expires_in j = None"
  shows "\<exists>s' e. requestNewToken p env s k cid cs = (Inr t, s') \<and>
           clock s' = clock s + int latency \<and>
           tokens s' k = Some e \<and> accessToken e = t \<and>
           expiresAt e = clock s' + 3300 * 1000"
  using assms by (simp add: requestNewToken_success)

theorem requestNewToken_default_lifetime_witness:
  "\<exists>s' e. requestNewToken demo_platform
              (demo_env ''access_token:T1;'' (\<lambda>n. Inr 0))
              start (Some ''conn_1'') (Some ''id'') (Some ''secret'') = (Inr ''T1'', s') \<and>
           clock s' = 1000025 \<and>
           tokens s' (Some ''conn_1'') = Some e \<and> accessToken e = ''T1'' \<and>
           expiresAt e = 4300025"
proof -
  let ?env = "demo_env ''access_token:T1;'' (\<lambda>n. Inr 0)"
  have ep: "token_endpoint ?env (token_requests start) = (25, Response 200 ''access_token:T1;'')"
    by (rule demo_endpoint)
  have "(''T1'' :: string) \<noteq> []" and "(200 :: nat) \<le> 200" and "(200 :: nat) < 300"
    by simp_all
  from requestNewToken_default_lifetime [where k = "Some ''conn_1''" and cid = "Some ''id''"
      and cs = "Some ''secret''", OF ep this(2,3) demo_parse_none
      demo_token_json_sel(1) this(1) demo_token_json_sel(2)]
  show ?thesis by (auto simp add: start_sel)
qed

text \<open>
  C4, as amended. With \<open>L\<close> the declared lifetime in milliseconds (3600 seconds when
  none or zero is declared), the entry lives \<open>L\<close> - 5 min and the refresh is scheduled
  5 min before the entry expires: at max(\<open>L\<close> - 10 min, 1 min) after the answer, never
  sooner than one minute, as long as that delay is one \<^verbatim>\<open>setTimeout\<close> keeps
  (at most 2147483647 ms).
\<close>

theorem requestNewToken_refresh_delay:
  assumes "token_endpoint env (token_requests s) = (latency, Response code body)"
    and "200 \<le> code" and "code < 300"
    and "JSON_parse_token p body = Inr j"
    and "access_token j = Some t" and "t \<noteq> []"
    and "L = (case expires_in j of None \<Rightarrow> 3600 | Some e \<Rightarrow> if e = 0 then 3600 else e) * 1000"
    and "L - 10 * 60 * 1000 \<le> 2147483647"
  shows "\<exists>s' h tm. requestNewToken p env s k cid cs = (Inr t, s') \<and>
           refreshTimers s' k = Some h \<and> timers s' h = Some tm \<and>
           fireAt tm = clock s' + max ((L - 5 * 60 * 1000) - 5 * 60 * 1000) (60 * 1000) \<and>
           fireAt tm = clock s' + max (L - 10 * 60 * 1000) (60 * 1000) \<and>
           clock s' + 60 * 1000 \<le> fireAt tm \<and>
           t_connectionId tm = k \<and> t_clientId tm = cid \<and> t_clientSecret tm = cs"
proof -
  let ?E = "(case expires_in j of None \<Rightarrow> 3600 | Some e \<Rightarrow> if e = 0 then 3600 else e)"
  let ?s2 = "s\<lparr> console := console s @ [TokenRequest k],
            clock := clock s + int latency,
            tokens := (tokens s)(k \<mapsto>
              \<lparr> accessToken = t,
                expiresAt = clock s + int latency + (?E - 300) * 1000,
                tokenType = (if truthy (token_type j) then the (token_type j) else ''Bearer'') \<rparr>) \<rparr>"
  let ?s' = "scheduleTokenRefresh ?s2 k cid cs ((?E - 300) * 1000)"
  have r: "requestNewToken p env s k cid cs = (Inr t, ?s')"
    using assms(1-6) by (rule requestNewToken_success)
  obtain h tm where ht: "refreshTimers ?s' k = Some h" "timers ?s' h = Some tm"
    "fireAt tm = clock ?s2 + setTimeout_delay (max ((?E - 300) * 1000 - 300000) 60000)"
    "t_connectionId tm = k" "t_clientId tm = cid" "t_clientSecret tm = cs"
    using scheduleTokenRefresh_timer [of ?s2 k cid cs "(?E - 300) * 1000"] by blast
  have d: "(?E - 300) * 1000 - 300000 = L - 600000"
    using assms(7) by simp
  have "setTimeout_delay (max (L - 600000) 60000) = max (L - 600000) 60000"
    using assms(8) by (auto simp add: setTimeout_delay_def max_def)
  with ht(3) d have f: "fireAt tm = clock ?s' + max (L - 600000) 60000"
    by simp
  show ?thesis
    using r ht(1,2,4,5,6) f by (intro exI [of _ ?s'] exI [of _ h] exI [of _ tm]) simp
qed

text \<open>
  Beyond that bound the delay overflows \<^verbatim>\<open>setTimeout\<close>, which then fires after one
  millisecond.
\<close>

lemma requestNewToken_refresh_overflow:
  assumes "token_endpoint env (token_requests s) = (latency, Response code body)"
    and "200 \<le> code" and "code < 300"
    and "JSON_parse_token p body = Inr j"
    and "access_token j = Some t" and "t \<noteq> []"
    and "L = (case expires_in j of None \<Rightarrow> 3600 | Some e \<Rightarrow> if e = 0 then 3600 else e) * 1000"
    and "2147483647 < L - 10 * 60 * 1000"
  shows "\<exists>s' h tm. requestNewToken p env s k cid cs = (Inr t, s') \<and>
           refreshTimers s' k = Some h \<and> timers s' h = Some tm \<and>
           fireAt tm = clock s' + 1"
proof -
  let ?E = "(case expires_in j of None \<Rightarrow> 3600 | Some e \<Rightarrow> if e = 0 then 3600 else e)"
  let ?s2 = "s\<lparr> console := console s @ [TokenRequest k],
            clock := clock s + int latency,
            tokens := (tokens s)(k \<mapsto>
              \<lparr> accessToken = t,
                expiresAt = clock s + int latency + (?E - 300) * 1000,
                tokenType = (if truthy (token_type j) then the (token_type j) else ''Bearer'') \<rparr>) \<rparr>"
  let ?s' = "scheduleTokenRefresh ?s2 k cid cs ((?E - 300) * 1000)"
  have r: "requestNewToken p env s k cid cs = (Inr t, ?s')"
    using assms(1-6) by (rule requestNewToken_success)
  obtain h tm where ht: "refreshTimers ?s' k = Some h" "timers ?s' h = Some tm"
    "fireAt tm = clock ?s2 + setTimeout_delay (max ((?E - 300) * 1000 - 300000) 60000)"
    using scheduleTokenRefresh_timer [of ?s2 k cid cs "(?E - 300) * 1000"] by blast
  have d: "(?E - 300) * 1000 - 300000 = L - 600000"
    using assms(7) by simp
  have "setTimeout_delay (max (L - 600000) 60000) = 1"
    using assms(8) by (auto simp add: setTimeout_delay_def max_def)
  with ht(3) d have f: "fireAt tm = clock ?s' + 1"
    by simp
  show ?thesis
    using r ht(1,2) f by (intro exI [of _ ?s'] exI [of _ h] exI [of _ tm]) simp
qed

theorem requestNewToken_refresh_delay_witness:
  "\<exists>s' h tm. requestNewToken demo_platform
              (demo_env ''access_token:T1;expires_in:3600;'' (\<lambda>n. Inr 0))
              start (Some ''conn_1'') (Some ''id'') (Some ''secret'') = (Inr ''T1'', s') \<and>
           refreshTimers s' (Some ''conn_1'') = Some h \<and> timers s' h = Some tm \<and>
           fireAt tm = clock s' + 3000000"
proof -
  let ?env = "demo_env ''access_token:T1;expires_in:3600;'' (\<lambda>n. Inr 0)"
  have ep: "token_endpoint ?env (token_requests start) =
      (25, Response 200 ''access_token:T1;expires_in:3600;'')"
    by (rule demo_endpoint)
  have l: "(3600000 :: int) =
      (case expires_in (demo_token_json ''T1'' (Some 3600)) of
         None \<Rightarrow> 3600 | Some e \<Rightarrow> if e = 0 then 3600 else e) * 1000"
    by (simp add: demo_token_json_sel)
  have "(''T1'' :: string) \<noteq> []" and "(200 :: nat) \<le> 200" and "(200 :: nat) < 300"
    and "(3600000 :: int) - 10 * 60 * 1000 \<le> 2147483647"
    by simp_all
  from requestNewToken_refresh_delay [where k = "Some ''conn_1''" and cid = "Some ''id''"
      and cs = "Some ''secret''", OF ep this(2,3) demo_parse_3600
      demo_token_json_sel(1) this(1) l this(4)]
  show ?thesis by auto
qed

text \<open>
  C4 as stated fails: for a declared lifetime of 3600 seconds the refresh is due 3000
  seconds after the answer, not max(3600000 - 300000, 60000) ms = 3300 seconds after it.
\<close>

theorem requestNewToken_refresh_counterexample:
  "fst (requestNewToken demo_platform
          (demo_env ''access_token:T1;expires_in:3600;'' (\<lambda>n. Inr 0))
          start (Some ''conn_1'') (Some ''id'') (Some ''secret'')) = Inr ''T1'' \<and>
   clock (snd (requestNewToken demo_platform
          (demo_env ''access_token:T1;expires_in:3600;'' (\<lambda>n. Inr 0))
          start (Some ''conn_1'') (Some ''id'') (Some ''secret''))) = 1000025 \<and>
   refreshTimers (snd (requestNewToken demo_platform
          (demo_env ''access_token:T1;expires_in:3600;'' (\<lambda>n. Inr 0))
          start (Some ''conn_1'') (Some ''id'') (Some ''secret''))) (Some ''conn_1'') = Some 0 \<and>
   map_option fireAt (timers (snd (requestNewToken demo_platform
          (demo_env ''access_token:T1;expires_in:3600;'' (\<lambda>n. Inr 0))
          start (Some ''conn_1'') (Some ''id'') (Some ''secret''))) 0)
     = Some (1000025 + 3000000) \<and>
   (1000025 + 3000000 :: int) \<noteq> 1000025 + max (3600 * 1000 - 5 * 60 * 1000) (60 * 1000)"
proof -
  have "(''T1'' :: string) \<noteq> []" and "(200 :: nat) \<le> 200" and "(200 :: nat) < 300"
    by simp_all
  from requestNewToken_success [where k = "Some ''conn_1''" and cid = "Some ''id''"
      and cs = "Some ''secret''" and s = start, OF demo_endpoint this(2,3) demo_parse_3600
      demo_token_json_sel(1) this(1)]
  show ?thesis
    by (simp add: demo_token_json_sel start_sel scheduleTokenRefresh_def setTimeout_delay_def
        Let_def)
qed

subsection \<open>Serving from the cache\<close>

lemma token_requests_append:
  "token_requests (s\<lparr> console := console s @ evs \<rparr>) =
     token_requests s + length (filter isTokenRequest evs)"
  by (simp add: token_requests_def)

lemma getAccessToken_hit:
  "tokens s k = Some e \<Longrightarrow> clock s < expiresAt e \<Longrightarrow>
   getAccessToken p env s k cid cs False =
     (Inr (accessToken e), s\<lparr> console := console s @ [GetAccessToken k False] \<rparr>)"
  by (simp add: getAccessToken_def Let_def)

lemma getAccessToken_miss:
  "\<not> cached s k \<or> force \<Longrightarrow>
   getAccessToken p env s k cid cs force =
     requestNewToken p env (s\<lparr> console := console s @ [GetAccessToken k force] \<rparr>) k cid cs"
  by (auto simp add: getAccessToken_def cached_def Let_def split: option.splits)

lemma getAccessToken_requests:
  "token_requests (snd (getAccessToken p env s k cid cs force)) =
     token_requests s + (if cached s k \<and> \<not> force then 0 else 1)"
proof (cases "cached s k \<and> \<not> force")
  case True
  then obtain e where "tokens s k = Some e" "clock s < expiresAt e"
    by (auto simp add: cached_def split: option.splits)
  with True show ?thesis
    by (simp add: getAccessToken_hit token_requests_append isTokenRequest_def)
next
  case False
  then have "\<not> cached s k \<or> force" by blast
  then show ?thesis using False
    by (simp add: getAccessToken_miss requestNewToken_requests token_requests_append
        isTokenRequest_def del: One_nat_def)
qed

lemma getAccessToken_stores:
  "getAccessToken p env s k cid cs force = (Inr t, s') \<Longrightarrow>
     \<exists>e. tokens s' k = Some e \<and> accessToken e = t"
  by (auto simp add: getAccessToken_def Let_def split: option.splits if_splits
      dest: requestNewToken_stores)

lemma getAccessToken_second_call:
  assumes "\<not> cached s k"
    and "getAccessToken p env s k cid cs False = (Inr t, s1)"
    and "cached (s1\<lparr> clock := clock s1 + d \<rparr>) k"
  shows "fst (getAccessToken p env (s1\<lparr> clock := clock s1 + d \<rparr>) k cid cs False) = Inr t"
    and "token_requests (snd (getAccessToken p env (s1\<lparr> clock := clock s1 + d \<rparr>) k cid cs False))
        = token_requests s + 1"
proof -
  let ?s2 = "s1\<lparr> clock := clock s1 + d \<rparr>"
  from assms(2) obtain e1 where e1: "tokens s1 k = Some e1" "accessToken e1 = t"
    using getAccessToken_stores by blast
  from assms(3) e1 have lt: "clock ?s2 < expiresAt e1" by (simp add: cached_def)
  from e1 lt show "fst (getAccessToken p env ?s2 k cid cs False) = Inr t"
    by (simp add: getAccessToken_hit)
  have "token_requests s1 = token_requests s + 1"
    using assms(1,2) getAccessToken_requests [of p env s k cid cs False] by simp
  moreover have "token_requests ?s2 = token_requests s1" by (simp add: token_requests_def)
  ultimately show
    "token_requests (snd (getAccessToken p env ?s2 k cid cs False)) = token_requests s + 1"
    using assms(3) by (simp add: getAccessToken_requests)
qed

lemma getAccessToken_first_call:
  assumes "\<not> cached s k"
    and "token_endpoint env (token_requests s) = (latency, Response code body)"
    and "200 \<le> code" and "code < 300"
    and "JSON_parse_token p body = Inr j"
    and "access_token j = Some t" and "t \<noteq> []"
  shows "\<exists>s1. getAccessToken p env s k cid cs False = (Inr t, s1) \<and>
           clock s1 = clock s + int latency \<and>
           map_option expiresAt (tokens s1 k) =
             Some (clock s + int latency +
               ((case expires_in j of None \<Rightarrow> 3600 | Some x \<Rightarrow> if x = 0 then 3600 else x)
                 - 300) * 1000)"
proof -
  let ?s0 = "s\<lparr> console := console s @ [GetAccessToken k False] \<rparr>"
  have m: "getAccessToken p env s k cid cs False = requestNewToken p env ?s0 k cid cs"
    using assms(1) by (simp add: getAccessToken_miss)
  have ep: "token_endpoint env (token_requests ?s0) = (latency, Response code body)"
    using assms(2) by (simp add: token_requests_append isTokenRequest_def)
  note r = requestNewToken_success [where k = k and cid = cid and cs = cs, OF ep assms(3-7)]
  show ?thesis
    unfolding m r by simp
qed

text \<open>
  C2, as amended. When the cache holds an entry for the id and the clock is strictly
  before its \<open>expiresAt\<close>, \<^verbatim>\<open>getAccessToken\<close> without \<^verbatim>\<open>forceRefresh\<close> returns the
  cached token and changes nothing but the console; it sends no token request.
  Consequently, when a first call that finds no valid entry obtains a token, and a second
  call follows after \<open>d\<close> milliseconds while the entry that the first one stored is still
  valid, the second returns the same token and the two calls together have sent exactly
  one token request. The entry is still valid, and the refresh scheduled for it has not
  fired, when the first call is answered 2xx with a token and a lifetime whose buffered
  part, (E - 300) seconds, exceeds \<open>d\<close>, as does the delay of the refresh (the numbers
  being ones that JavaScript holds exactly).
\<close>

theorem getAccessToken_cache_hit:
  "(tokens s k = Some e \<and> clock s < expiresAt e \<longrightarrow>
      getAccessToken p env s k cid cs False =
        (Inr (accessToken e), s\<lparr> console := console s @ [GetAccessToken k False] \<rparr>) \<and>
      token_requests (snd (getAccessToken p env s k cid cs False)) = token_requests s) \<and>
   (\<not> cached s k \<and> getAccessToken p env s k cid cs False = (Inr t, s1) \<and>
      cached (s1\<lparr> clock := clock s1 + d \<rparr>) k \<longrightarrow>
      fst (getAccessToken p env (s1\<lparr> clock := clock s1 + d \<rparr>) k cid cs False) = Inr t \<and>
      token_requests (snd (getAccessToken p env (s1\<lparr> clock := clock s1 + d \<rparr>) k cid cs False))
        = token_requests s + 1) \<and>
   (\<not> cached s k \<and>
      token_endpoint env (token_requests s) = (latency, Response code body) \<and>
      200 \<le> code \<and> code < 300 \<and> JSON_parse_token p body = Inr j \<and>
      access_token j = Some t \<and> t \<noteq> [] \<and>
      E = (case expires_in j of None \<Rightarrow> 3600 | Some x \<Rightarrow> if x = 0 then 3600 else x) \<and>
      exact_number (clock s + int latency) \<and> exact_number ((E - 300) * 1000) \<and>
      exact_number (clock s + int latency + (E - 300) * 1000) \<and>
      d < (E - 300) * 1000 \<and>
      d < setTimeout_delay (max ((E - 300) * 1000 - 5 * 60 * 1000) (60 * 1000)) \<longrightarrow>
      (\<exists>s2. getAccessToken p env s k cid cs False = (Inr t, s2) \<and>
         clock s2 = clock s + int latency \<and>
         fst (getAccessToken p env (s2\<lparr> clock := clock s2 + d \<rparr>) k cid cs False) = Inr t \<and>
         token_requests
           (snd (getAccessToken p env (s2\<lparr> clock := clock s2 + d \<rparr>) k cid cs False))
           = token_requests s + 1))"
proof (intro conjI impI)
  assume h: "tokens s k = Some e \<and> clock s < expiresAt e"
  then show "getAccessToken p env s k cid cs False =
        (Inr (accessToken e), s\<lparr> console := console s @ [GetAccessToken k False] \<rparr>)"
    by (simp add: getAccessToken_hit)
  from h have "cached s k" by (simp add: cached_def)
  then show "token_requests (snd (getAccessToken p env s k cid cs False)) = token_requests s"
    by (simp add: getAccessToken_requests)
next
  assume h: "\<not> cached s k \<and> getAccessToken p env s k cid cs False = (Inr t, s1) \<and>
      cached (s1\<lparr> clock := clock s1 + d \<rparr>) k"
  then have a: "\<not> cached s k" "getAccessToken p env s k cid cs False = (Inr t, s1)"
    "cached (s1\<lparr> clock := clock s1 + d \<rparr>) k"
    by blast+
  show "fst (getAccessToken p env (s1\<lparr> clock := clock s1 + d \<rparr>) k cid cs False) = Inr t"
    using a by (rule getAccessToken_second_call)
  show "token_requests (snd (getAccessToken p env (s1\<lparr> clock := clock s1 + d \<rparr>) k cid cs False))
        = token_requests s + 1"
    using a by (rule getAccessToken_second_call)
next
  assume h: "\<not> cached s k \<and>
      token_endpoint env (token_requests s) = (latency, Response code body) \<and>
      200 \<le> code \<and> code < 300 \<and> JSON_parse_token p body = Inr j \<and>
      access_token j = Some t \<and> t \<noteq> [] \<and>
      E = (case expires_in j of None \<Rightarrow> 3600 | Some x \<Rightarrow> if x = 0 then 3600 else x) \<and>
      exact_number (clock s + int latency) \<and> exact_number ((E - 300) * 1000) \<and>
      exact_number (clock s + int latency + (E - 300) * 1000) \<and>
      d < (E - 300) * 1000 \<and>
      d < setTimeout_delay (max ((E - 300) * 1000 - 5 * 60 * 1000) (60 * 1000))"
  then have nc: "\<not> cached s k"
    and ep: "token_endpoint env (token_requests s) = (latency, Response code body)"
    and ok: "200 \<le> code" "code < 300" "JSON_parse_token p body = Inr j"
      "access_token j = Some t" "t \<noteq> []"
    and E: "E = (case expires_in j of None \<Rightarrow> 3600 | Some x \<Rightarrow> if x = 0 then 3600 else x)"
    and d: "d < (E - 300) * 1000"
    by blast+
  from getAccessToken_first_call [where cid = cid and cs = cs, OF nc ep ok] E obtain s2 where
    s2: "getAccessToken p env s k cid cs False = (Inr t, s2)"
      "clock s2 = clock s + int latency"
      "map_option expiresAt (tokens s2 k) = Some (clock s + int latency + (E - 300) * 1000)"
    by auto
  from s2(2,3) d have c: "cached (s2\<lparr> clock := clock s2 + d \<rparr>) k"
    by (auto simp add: cached_def split: option.splits)
  note sc = getAccessToken_second_call [OF nc s2(1) c]
  from s2(1,2) sc show "\<exists>s2. getAccessToken p env s k cid cs False = (Inr t, s2) \<and>
         clock s2 = clock s + int latency \<and>
         fst (getAccessToken p env (s2\<lparr> clock := clock s2 + d \<rparr>) k cid cs False) = Inr t \<and>
         token_requests
           (snd (getAccessToken p env (s2\<lparr> clock := clock s2 + d \<rparr>) k cid cs False))
           = token_requests s + 1"
    by blast
qed

lemma demo_first_call:
  "fst (getAccessToken demo_platform (demo_env ''access_token:T1;expires_in:3600;'' dav)
          start (Some ''conn_1'') (Some ''id'') (Some ''secret'') False) = Inr ''T1''"
  "clock (snd (getAccessToken demo_platform (demo_env ''access_token:T1;expires_in:3600;'' dav)
          start (Some ''conn_1'') (Some ''id'') (Some ''secret'') False)) = 1000025"
  "map_option expiresAt
     (tokens (snd (getAccessToken demo_platform
          (demo_env ''access_token:T1;expires_in:3600;'' dav)
          start (Some ''conn_1'') (Some ''id'') (Some ''secret'') False)) (Some ''conn_1''))
     = Some 4300025"
proof -
  have nc: "\<not> cached start (Some ''conn_1'')"
    by (simp add: cached_def start_sel)
  have "(''T1'' :: string) \<noteq> []" and "(200 :: nat) \<le> 200" and "(200 :: nat) < 300"
    by simp_all
  from getAccessToken_first_call [where cid = "Some ''id''" and cs = "Some ''secret''"
      and env = "demo_env ''access_token:T1;expires_in:3600;'' dav",
      OF nc demo_endpoint this(2,3) demo_parse_3600 demo_token_json_sel(1) this(1)]
  obtain s1 where s1: "getAccessToken demo_platform
        (demo_env ''access_token:T1;expires_in:3600;'' dav)
        start (Some ''conn_1'') (Some ''id'') (Some ''secret'') False = (Inr ''T1'', s1)"
      "clock s1 = 1000025"
      "map_option expiresAt (tokens s1 (Some ''conn_1'')) = Some 4300025"
    by (auto simp add: start_sel demo_token_json_sel)
  show "fst (getAccessToken demo_platform (demo_env ''access_token:T1;expires_in:3600;'' dav)
          start (Some ''conn_1'') (Some ''id'') (Some ''secret'') False) = Inr ''T1''"
    and "clock (snd (getAccessToken demo_platform
          (demo_env ''access_token:T1;expires_in:3600;'' dav)
          start (Some ''conn_1'') (Some ''id'') (Some ''secret'') False)) = 1000025"
    and "map_option expiresAt
     (tokens (snd (getAccessToken demo_platform
          (demo_env ''access_token:T1;expires_in:3600;'' dav)
          start (Some ''conn_1'') (Some ''id'') (Some ''secret'') False)) (Some ''conn_1''))
     = Some 4300025"
    using s1 by simp_all
qed

theorem getAccessToken_cache_hit_witness:
  "getAccessToken demo_platform (demo_env ''access_token:T1;expires_in:3600;'' (\<lambda>n. Inr 0))
     (start\<lparr> tokens := [Some ''conn_1'' \<mapsto>
        \<lparr> accessToken = ''T0'', expiresAt = 2000000, tokenType = ''Bearer'' \<rparr>] \<rparr>)
     (Some ''conn_1'') (Some ''id'') (Some ''secret'') False =
     (Inr ''T0'',
      start\<lparr> tokens := [Some ''conn_1'' \<mapsto>
          \<lparr> accessToken = ''T0'', expiresAt = 2000000, tokenType = ''Bearer'' \<rparr>],
        console := [GetAccessToken (Some ''conn_1'') False] \<rparr>) \<and>
   fst demo_first = Inr ''T1'' \<and>
   fst (getAccessToken demo_platform (demo_env ''access_token:T1;expires_in:3600;'' (\<lambda>n. Inr 0))
     ((snd demo_first)\<lparr> clock := clock (snd demo_first) + 1000 \<rparr>)
     (Some ''conn_1'') (Some ''id'') (Some ''secret'') False) = Inr ''T1'' \<and>
   token_requests (snd (getAccessToken demo_platform
     (demo_env ''access_token:T1;expires_in:3600;'' (\<lambda>n. Inr 0))
     ((snd demo_first)\<lparr> clock := clock (snd demo_first) + 1000 \<rparr>)
     (Some ''conn_1'') (Some ''id'') (Some ''secret'') False)) = 1"
proof -
  let ?env = "demo_env ''access_token:T1;expires_in:3600;'' (\<lambda>n. Inr 0)"
  let ?k = "Some ''conn_1''"
  let ?e = "\<lparr> accessToken = ''T0'', expiresAt = 2000000, tokenType = ''Bearer'' \<rparr>"
  let ?s = "start\<lparr> tokens := [?k \<mapsto> ?e] \<rparr>"
  have a: "tokens ?s ?k = Some ?e \<and> clock ?s < expiresAt ?e"
    by (simp add: start_sel)
  have first: "fst demo_first = Inr ''T1''"
    unfolding demo_first_def by (rule demo_first_call(1))
  have c: "\<not> cached start ?k \<and>
      token_endpoint ?env (token_requests start) =
        (25, Response 200 ''access_token:T1;expires_in:3600;'') \<and>
      (200 :: nat) \<le> 200 \<and> (200 :: nat) < 300 \<and>
      JSON_parse_token demo_platform ''access_token:T1;expires_in:3600;'' =
        Inr (demo_token_json ''T1'' (Some 3600)) \<and>
      access_token (demo_token_json ''T1'' (Some 3600)) = Some ''T1'' \<and> ''T1'' \<noteq> [] \<and>
      (3600 :: int) = (case expires_in (demo_token_json ''T1'' (Some 3600)) of
         None \<Rightarrow> 3600 | Some x \<Rightarrow> if x = 0 then 3600 else x) \<and>
      exact_number (clock start + int 25) \<and> exact_number ((3600 - 300) * 1000) \<and>
      exact_number (clock start + int 25 + (3600 - 300) * 1000) \<and>
      (1000 :: int) < (3600 - 300) * 1000 \<and>
      (1000 :: int) < setTimeout_delay (max ((3600 - 300) * 1000 - 5 * 60 * 1000) (60 * 1000))"
    by (simp add: cached_def start_sel demo_endpoint demo_parse_3600 demo_token_json_sel
        exact_number_def setTimeout_delay_def)
  from c getAccessToken_cache_hit [where s = start and k = ?k and p = demo_platform
      and env = ?env and cid = "Some ''id''" and cs = "Some ''secret''" and latency = 25
      and code = 200 and body = "''access_token:T1;expires_in:3600;''"
      and j = "demo_token_json ''T1'' (Some 3600)" and t = "''T1''" and E = 3600 and d = 1000]
  obtain s2 where s2: "getAccessToken demo_platform ?env start ?k (Some ''id'') (Some ''secret'')
        False = (Inr ''T1'', s2)"
    "fst (getAccessToken demo_platform ?env (s2\<lparr> clock := clock s2 + 1000 \<rparr>) ?k
        (Some ''id'') (Some ''secret'') False) = Inr ''T1''"
    "token_requests (snd (getAccessToken demo_platform ?env (s2\<lparr> clock := clock s2 + 1000 \<rparr>)
        ?k (Some ''id'') (Some ''secret'') False)) = token_requests start + 1"
    by blast
  from s2(1) have "snd demo_first = s2"
    by (simp add: demo_first_def)
  moreover have "token_requests start = 0"
    by (simp add: token_requests_def start_sel)
  ultimately show ?thesis
    using a first s2(2,3)
      getAccessToken_cache_hit [of ?s ?k ?e demo_platform ?env "Some ''id''" "Some ''secret''"]
    by (simp add: start_sel)
qed

text \<open>
  C2 as stated fails in its consequence: answered with a lifetime of 100 seconds, the
  first call stores an entry that has expired already, and a second call right after it
  sends a second token request.
\<close>

theorem getAccessToken_twice_counterexample:
  "token_requests start = 0 \<and>
   fst demo_short = Inr ''T1'' \<and>
   fst (getAccessToken demo_platform (demo_env ''access_token:T1;expires_in:100;'' (\<lambda>n. Inr 0))
     (snd demo_short) (Some ''conn_1'') (Some ''id'') (Some ''secret'') False) = Inr ''T1'' \<and>
   token_requests (snd (getAccessToken demo_platform
     (demo_env ''access_token:T1;expires_in:100;'' (\<lambda>n. Inr 0))
     (snd demo_short) (Some ''conn_1'') (Some ''id'') (Some ''secret'') False)) = 2"
  by (simp add: demo_short_def getAccessToken_def requestNewToken_def makeHttpsRequest_def
      scheduleTokenRefresh_def truthy_def token_requests_def isTokenRequest_def
      demo_platform_def demo_env_def demo_token_json_def start_def Let_def)

section \<open>The credential store\<close>

subsection \<open>Searching the connections\<close>

lemma findIndex_None: "(findIndex P xs = None) = (\<forall>x\<in>set xs. \<not> P x)"
  by (induction xs) auto

lemma findIndex_Some:
  "findIndex P xs = Some i \<Longrightarrow> i < length xs \<and> P (xs ! i) \<and> (\<forall>j<i. \<not> P (xs ! j))"
proof (induction xs arbitrary: i)
  case Nil
  then show ?case by simp
next
  case (Cons x xs)
  show ?case
  proof (cases "P x")
    case True
    with Cons.prems show ?thesis by simp
  next
    case False
    with Cons.prems obtain i' where i': "findIndex P xs = Some i'" "i = Suc i'"
      by auto
    from Cons.IH [OF i'(1)] False i'(2) show ?thesis
      by (auto simp add: nth_Cons split: nat.splits)
  qed
qed

lemma findIndex_Some_ex: "(\<exists>i. findIndex P xs = Some i) = (\<exists>x\<in>set xs. P x)"
  using findIndex_None [of P xs] by (cases "findIndex P xs") auto

lemma find_update_first:
  "findIndex P xs = Some i \<Longrightarrow> P y \<Longrightarrow> find P (xs[i := y]) = Some y"
proof (induction xs arbitrary: i)
  case Nil
  then show ?case by simp
next
  case (Cons x xs)
  then show ?case by (cases "P x") auto
qed

lemma find_append_new:
  "findIndex P xs = None \<Longrightarrow> P y \<Longrightarrow> find P (xs @ [y]) = Some y"
  by (induction xs) (auto split: if_splits)

subsection \<open>Saving\<close>

text \<open>The id under which \<^verbatim>\<open>saveCredentials\<close> stores a credentials object.\<close>

lemma saveCredentials_Inr:
  assumes "saveCredentials p now salt cm c = Inr (i, cm')"
  shows "\<exists>ct. encryptData p cm salt (JSON_stringify p (sensitiveOf c)) = Inr ct \<and>
           cm' = cm\<lparr> sensitiveData := (sensitiveData cm)(i \<mapsto> ct),
                      connections :=
                        (case findIndex (\<lambda>conn. conn_id conn = i) (connections cm) of
                           Some k \<Rightarrow> (connections cm)[k := publicData now i c]
                         | None \<Rightarrow> connections cm @ [publicData now i c]) \<rparr> \<and>
           i = (case cred_id c of
                  None \<Rightarrow> generateConnectionId p now (cred_name c)
                | Some j \<Rightarrow> if j = [] then generateConnectionId p now (cred_name c) else j)"
  using assms by (auto simp add: saveCredentials_def Let_def split: sum.splits)

lemma saveCredentials_find:
  assumes "saveCredentials p now salt cm c = Inr (i, cm')"
  shows "find (\<lambda>conn. conn_id conn = i) (connections cm') = Some (publicData now i c)"
proof -
  have pid: "conn_id (publicData now i c) = i" by (simp add: publicData_def)
  from saveCredentials_Inr [OF assms] have
    c': "connections cm' =
      (case findIndex (\<lambda>conn. conn_id conn = i) (connections cm) of
         Some k \<Rightarrow> (connections cm)[k := publicData now i c]
       | None \<Rightarrow> connections cm @ [publicData now i c])"
    by auto
  show ?thesis
  proof (cases "findIndex (\<lambda>conn. conn_id conn = i) (connections cm)")
    case None
    with c' pid show ?thesis by (simp add: find_append_new)
  next
    case (Some k)
    with c' pid show ?thesis by (simp add: find_update_first)
  qed
qed

lemma saveCredentials_set:
  assumes "saveCredentials p now salt cm c = Inr (i, cm')"
  shows "publicData now i c \<in> set (connections cm')"
    and "set (connections cm') \<subseteq> insert (publicData now i c) (set (connections cm))"
proof -
  from saveCredentials_Inr [OF assms] have
    c': "connections cm' =
      (case findIndex (\<lambda>conn. conn_id conn = i) (connections cm) of
         Some k \<Rightarrow> (connections cm)[k := publicData now i c]
       | None \<Rightarrow> connections cm @ [publicData now i c])"
    by auto
  show "publicData now i c \<in> set (connections cm')"
  proof (cases "findIndex (\<lambda>conn. conn_id conn = i) (connections cm)")
    case None
    with c' show ?thesis by simp
  next
    case (Some k)
    with c' findIndex_Some [OF Some] show ?thesis by (simp add: set_update_memI)
  qed
  show "set (connections cm') \<subseteq> insert (publicData now i c) (set (connections cm))"
    using c' set_update_subset_insert [of "connections cm" _ "publicData now i c"]
    by (auto split: option.splits)
qed

lemma demo_save_basic:
  "saveCredentials demo_platform 1000 ''salt'' empty_store demo_basic =
     Inr (''conn_01234567'', saved_basic)"
  by (simp add: saveCredentials_def encryptData_def generateConnectionId_def publicData_def
      sensitiveOf_def demo_platform_def demo_field_def demo_basic_def empty_store_def
      saved_basic_def Let_def)

subsection \<open>The cipher\<close>

lemma demo_cipher_round_trip:
  "\<forall>salt data k. \<exists>ct. AES_encrypt demo_platform salt data (Some k) = Inr ct \<and>
     AES_decrypt demo_platform ct (Some k) = Inr data"
  by (simp add: demo_platform_def)

text \<open>
  C8. Where the cipher of the library decrypts under a key what it encrypted under it,
  and the store holds a key, \<^verbatim>\<open>encryptData\<close> returns a ciphertext for every string and
  \<^verbatim>\<open>decryptData\<close> gives the string back from it: both read the same stored key.
\<close>

theorem encryptData_decryptData:
  assumes "\<forall>salt data k. \<exists>ct. AES_encrypt p salt data (Some k) = Inr ct \<and>
             AES_decrypt p ct (Some k) = Inr data"
    and "encryptionSalt cm = Some key"
  shows "\<exists>ct. encryptData p cm salt s = Inr ct \<and> decryptData p cm ct = Inr s"
  using assms by (simp add: encryptData_def decryptData_def)

theorem encryptData_decryptData_witness:
  "encryptData demo_platform empty_store ''salt'' ''username:u;password:p;'' =
     Inr ''key;p:drowssap;u:emanresu'' \<and>
   decryptData demo_platform empty_store ''key;p:drowssap;u:emanresu'' =
     Inr ''username:u;password:p;''"
proof -
  have k: "encryptionSalt empty_store = Some ''key''"
    by (simp add: empty_store_def)
  have e: "encryptData demo_platform empty_store ''salt'' ''username:u;password:p;'' =
      Inr ''key;p:drowssap;u:emanresu''"
    by (simp add: encryptData_def demo_platform_def empty_store_def)
  from encryptData_decryptData [OF demo_cipher_round_trip k, of "''salt''"
      "''username:u;password:p;''"] e
  show ?thesis by auto
qed

subsection \<open>Loading\<close>

lemma generateConnectionId_not_inherited:
  "\<not> inherited_property (generateConnectionId p now nm)"
  by (simp add: inherited_property_def generateConnectionId_def)

text \<open>
  C7. \<^verbatim>\<open>loadCredentials\<close> fails with the not-found error when no public record has the
  id; with the other, re-enter-credentials error when a record has it and no ciphertext is
  stored for it, the id being none of the property names that every object inherits (as
  no generated id is; under such a name the failure is that of \<^verbatim>\<open>JSON.parse\<close> on the
  empty text); it succeeds when the stored ciphertext decrypts and parses, and whenever
  it succeeds the object returned has the public fields of the record and the fields of
  the decrypted bundle (for the username, which both may have, the bundle's).
\<close>

theorem loadCredentials_outcomes:
  "((\<forall>conn\<in>set (connections cm). conn_id conn \<noteq> i) \<longrightarrow>
      loadCredentials p cm i = Inl connection_not_found) \<and>
   ((\<exists>conn\<in>set (connections cm). conn_id conn = i) \<and> sensitiveData cm i = None \<and>
      \<not> inherited_property i \<longrightarrow>
      loadCredentials p cm i = Inl credentials_not_found) \<and>
   ((\<exists>conn\<in>set (connections cm). conn_id conn = i) \<and> sensitiveData cm i = None \<and>
      inherited_property i \<and> JSON_parse p [] = Inl e \<longrightarrow>
      loadCredentials p cm i = Inl (Error (''Failed to load credentials: '' @ message e) None)) \<and>
   connection_not_found \<noteq> credentials_not_found \<and>
   message connection_not_found = ''Failed to load credentials: Connection not found'' \<and>
   message credentials_not_found =
     ''Failed to load credentials: Credentials not found in store. Please edit this connection to re-enter your credentials.'' \<and>
   (find (\<lambda>conn. conn_id conn = i) (connections cm) = Some conn \<and>
      sensitiveData cm i = Some ct \<and> ct \<noteq> [] \<and>
      decryptData p cm ct = Inr plain \<and> JSON_parse p plain = Inr b \<longrightarrow>
      loadCredentials p cm i = Inr (fullCredentials conn b)) \<and>
   (loadCredentials p cm i = Inr full \<longrightarrow>
      (\<exists>conn b.
         find (\<lambda>conn. conn_id conn = i) (connections cm) = Some conn \<and>
         ((\<exists>ct plain. sensitiveData cm i = Some ct \<and>
             decryptData p cm ct = Inr plain \<and> JSON_parse p plain = Inr b) \<or>
          (sensitiveData cm i = None \<and> inherited_property i \<and> JSON_parse p [] = Inr b)) \<and>
         cred_id full = Some i \<and> cred_name full = name conn \<and> cred_url full = url conn \<and>
         cred_authType full = authType conn \<and>
         cred_lastConnected full = Some (lastConnected conn) \<and>
         cred_lastLocalFolder full = lastLocalFolder conn \<and>
         cred_username full = (case s_username b of Some u \<Rightarrow> Some u | None \<Rightarrow> username conn) \<and>
         cred_password full = s_password b \<and> cred_token full = s_token b \<and>
         cred_clientId full = s_clientId b \<and> cred_clientSecret full = s_clientSecret b))"
proof (intro conjI impI)
  assume "\<forall>conn\<in>set (connections cm). conn_id conn \<noteq> i"
  then have "find (\<lambda>conn. conn_id conn = i) (connections cm) = None"
    by (simp add: find_None_iff)
  then show "loadCredentials p cm i = Inl connection_not_found"
    by (simp add: loadCredentials_def)
next
  assume h: "(\<exists>conn\<in>set (connections cm). conn_id conn = i) \<and> sensitiveData cm i = None \<and>
      \<not> inherited_property i"
  then obtain conn where "find (\<lambda>conn. conn_id conn = i) (connections cm) = Some conn"
    by (cases "find (\<lambda>conn. conn_id conn = i) (connections cm)") (auto simp add: find_None_iff)
  with h show "loadCredentials p cm i = Inl credentials_not_found"
    by (simp add: loadCredentials_def)
next
  assume h: "(\<exists>conn\<in>set (connections cm). conn_id conn = i) \<and> sensitiveData cm i = None \<and>
      inherited_property i \<and> JSON_parse p [] = Inl e"
  then obtain conn where "find (\<lambda>conn. conn_id conn = i) (connections cm) = Some conn"
    by (cases "find (\<lambda>conn. conn_id conn = i) (connections cm)") (auto simp add: find_None_iff)
  with h show "loadCredentials p cm i =
      Inl (Error (''Failed to load credentials: '' @ message e) None)"
    by (simp add: loadCredentials_def load_prefix_def)
next
  show "connection_not_found \<noteq> credentials_not_found"
    by (simp add: connection_not_found_def credentials_not_found_def load_prefix_def)
next
  show "message connection_not_found = ''Failed to load credentials: Connection not found''"
    by (simp add: connection_not_found_def load_prefix_def)
next
  show "message credentials_not_found =
     ''Failed to load credentials: Credentials not found in store. Please edit this connection to re-enter your credentials.''"
    by (simp add: credentials_not_found_def load_prefix_def)
next
  assume "find (\<lambda>conn. conn_id conn = i) (connections cm) = Some conn \<and>
      sensitiveData cm i = Some ct \<and> ct \<noteq> [] \<and>
      decryptData p cm ct = Inr plain \<and> JSON_parse p plain = Inr b"
  then show "loadCredentials p cm i = Inr (fullCredentials conn b)"
    by (simp add: loadCredentials_def)
next
  assume ok: "loadCredentials p cm i = Inr full"
  then obtain conn where f: "find (\<lambda>conn. conn_id conn = i) (connections cm) = Some conn"
    by (cases "find (\<lambda>conn. conn_id conn = i) (connections cm)")
      (auto simp add: loadCredentials_def)
  from f have ci: "conn_id conn = i"
    by (auto simp add: find_Some_iff)
  have "\<exists>b. full = fullCredentials conn b \<and>
      ((\<exists>ct plain. sensitiveData cm i = Some ct \<and>
          decryptData p cm ct = Inr plain \<and> JSON_parse p plain = Inr b) \<or>
       (sensitiveData cm i = None \<and> inherited_property i \<and> JSON_parse p [] = Inr b))"
  proof (cases "sensitiveData cm i")
    case None
    with ok f have inh: "inherited_property i"
      by (auto simp add: loadCredentials_def split: if_splits)
    from ok f None inh obtain b where "JSON_parse p [] = Inr b" "full = fullCredentials conn b"
      by (cases "JSON_parse p []") (auto simp add: loadCredentials_def)
    with None inh show ?thesis by blast
  next
    case (Some ct)
    with ok f have ne: "ct \<noteq> []"
      by (auto simp add: loadCredentials_def split: if_splits)
    from ok f Some ne obtain plain where d: "decryptData p cm ct = Inr plain"
      by (cases "decryptData p cm ct") (auto simp add: loadCredentials_def)
    from ok f Some ne d obtain b where j: "JSON_parse p plain = Inr b"
      by (cases "JSON_parse p plain") (auto simp add: loadCredentials_def)
    from ok f Some ne d j have "full = fullCredentials conn b"
      by (simp add: loadCredentials_def)
    with Some d j show ?thesis by blast
  qed
  then obtain b where b: "full = fullCredentials conn b"
    "(\<exists>ct plain. sensitiveData cm i = Some ct \<and>
          decryptData p cm ct = Inr plain \<and> JSON_parse p plain = Inr b) \<or>
       (sensitiveData cm i = None \<and> inherited_property i \<and> JSON_parse p [] = Inr b)"
    by blast
  with f ci show "\<exists>conn b.
         find (\<lambda>conn. conn_id conn = i) (connections cm) = Some conn \<and>
         ((\<exists>ct plain. sensitiveData cm i = Some ct \<and>
             decryptData p cm ct = Inr plain \<and> JSON_parse p plain = Inr b) \<or>
          (sensitiveData cm i = None \<and> inherited_property i \<and> JSON_parse p [] = Inr b)) \<and>
         cred_id full = Some i \<and> cred_name full = name conn \<and> cred_url full = url conn \<and>
         cred_authType full = authType conn \<and>
         cred_lastConnected full = Some (lastConnected conn) \<and>
         cred_lastLocalFolder full = lastLocalFolder conn \<and>
         cred_username full = (case s_username b of Some u \<Rightarrow> Some u | None \<Rightarrow> username conn) \<and>
         cred_password full = s_password b \<and> cred_token full = s_token b \<and>
         cred_clientId full = s_clientId b \<and> cred_clientSecret full = s_clientSecret b"
    by (intro exI [of _ conn] exI [of _ b]) (simp add: fullCredentials_def)
qed

lemma demo_stores:
  "connections empty_store = []"
  "find (\<lambda>conn. conn_id conn = ''conn_01234567'') (connections saved_basic) =
     Some \<lparr> name = ''dev'', url = ''https://x/webdav'', authType = ''basic'',
            username = Some ''u'', lastConnected = 1000, lastLocalFolder = None,
            conn_id = ''conn_01234567'' \<rparr>"
  "sensitiveData saved_basic ''conn_01234567'' = Some ''key;p:drowssap;u:emanresu''"
  "connections public_only = connections saved_basic"
  "sensitiveData public_only ''conn_01234567'' = None"
  "decryptData demo_platform saved_basic ''key;p:drowssap;u:emanresu'' =
     Inr ''username:u;password:p;''"
  "JSON_parse demo_platform ''username:u;password:p;'' =
     Inr \<lparr> s_username = Some ''u'', s_password = Some ''p'', s_token = None,
           s_clientId = None, s_clientSecret = None \<rparr>"
  by (simp_all add: empty_store_def saved_basic_def public_only_def decryptData_def
      demo_platform_def)

theorem loadCredentials_outcomes_witness:
  "loadCredentials demo_platform empty_store ''conn_01234567'' = Inl connection_not_found \<and>
   loadCredentials demo_platform public_only ''conn_01234567'' = Inl credentials_not_found \<and>
   loadCredentials demo_platform constructor_only ''constructor'' =
     Inl (Error ''Failed to load credentials: Unexpected end of JSON input'' None) \<and>
   loadCredentials demo_platform saved_basic ''conn_01234567'' =
     Inr \<lparr> cred_id = Some ''conn_01234567'', cred_name = ''dev'',
           cred_url = ''https://x/webdav'', cred_authType = ''basic'',
           cred_username = Some ''u'', cred_password = Some ''p'', cred_token = None,
           cred_clientId = None, cred_clientSecret = None,
           cred_lastConnected = Some 1000, cred_lastLocalFolder = None \<rparr>"
proof -
  let ?conn = "\<lparr> name = ''dev'', url = ''https://x/webdav'', authType = ''basic'',
            username = Some ''u'', lastConnected = 1000, lastLocalFolder = None,
            conn_id = ''conn_01234567'' \<rparr>"
  let ?b = "\<lparr> s_username = Some ''u'', s_password = Some ''p'', s_token = None,
           s_clientId = None, s_clientSecret = None \<rparr>"
  have a: "\<forall>conn\<in>set (connections empty_store). conn_id conn \<noteq> ''conn_01234567''"
    by (simp add: demo_stores)
  have b: "(\<exists>conn\<in>set (connections public_only). conn_id conn = ''conn_01234567'') \<and>
      sensitiveData public_only ''conn_01234567'' = None \<and>
      \<not> inherited_property ''conn_01234567''"
    by (simp add: demo_stores(5) inherited_property_def)
      (simp add: public_only_def saved_basic_def)
  have i: "(\<exists>conn\<in>set (connections constructor_only). conn_id conn = ''constructor'') \<and>
      sensitiveData constructor_only ''constructor'' = None \<and>
      inherited_property ''constructor'' \<and>
      JSON_parse demo_platform [] = Inl (Error ''Unexpected end of JSON input'' None)"
    by (simp add: constructor_only_def empty_store_def inherited_property_def demo_platform_def)
  have c: "find (\<lambda>conn. conn_id conn = ''conn_01234567'') (connections saved_basic) = Some ?conn \<and>
      sensitiveData saved_basic ''conn_01234567'' = Some ''key;p:drowssap;u:emanresu'' \<and>
      ''key;p:drowssap;u:emanresu'' \<noteq> [] \<and>
      decryptData demo_platform saved_basic ''key;p:drowssap;u:emanresu'' =
        Inr ''username:u;password:p;'' \<and>
      JSON_parse demo_platform ''username:u;password:p;'' = Inr ?b"
    by (simp add: demo_stores)
  from a loadCredentials_outcomes [of empty_store "''conn_01234567''" demo_platform]
  have 1: "loadCredentials demo_platform empty_store ''conn_01234567'' = Inl connection_not_found"
    by blast
  from b loadCredentials_outcomes [of public_only "''conn_01234567''" demo_platform]
  have 2: "loadCredentials demo_platform public_only ''conn_01234567'' = Inl credentials_not_found"
    by blast
  from i loadCredentials_outcomes [of constructor_only "''constructor''" demo_platform
      "Error ''Unexpected end of JSON input'' None"]
  have 3: "loadCredentials demo_platform constructor_only ''constructor'' =
      Inl (Error (''Failed to load credentials: '' @
        message (Error ''Unexpected end of JSON input'' None)) None)"
    by blast
  from c loadCredentials_outcomes [of saved_basic "''conn_01234567''" demo_platform _ ?conn
      "''key;p:drowssap;u:emanresu''" "''username:u;password:p;''" ?b]
  have 4: "loadCredentials demo_platform saved_basic ''conn_01234567'' =
      Inr (fullCredentials ?conn ?b)"
    by blast
  from 1 2 3 4 show ?thesis by (simp add: fullCredentials_def)
qed

subsection \<open>The most recent connection\<close>

lemma sort_key_head:
  assumes "x \<in> set xs" and "\<forall>y\<in>set xs. y = x \<or> f x < f y"
  shows "\<exists>rest. sort_key f xs = x # rest"
proof (cases "sort_key f xs")
  case Nil
  then have "set (sort_key f xs) = {}" by simp
  with assms(1) show ?thesis by simp
next
  case (Cons h rest)
  have "sorted (map f (sort_key f xs))" by simp
  with Cons have le: "\<forall>z\<in>set (h # rest). f h \<le> f z" by auto
  have s: "set (h # rest) = set xs"
    using Cons set_sort [of f xs] by simp
  with assms(1) le have "f h \<le> f x" by blast
  moreover from s have "h \<in> set xs" by auto
  ultimately have "h = x" using assms(2) by fastforce
  with Cons show ?thesis by simp
qed

lemma sort_key_head_min:
  assumes "xs \<noteq> []"
  shows "\<exists>h rest. sort_key f xs = h # rest \<and> h \<in> set xs \<and> (\<forall>y\<in>set xs. f h \<le> f y)"
proof (cases "sort_key f xs")
  case Nil
  then have "set (sort_key f xs) = {}" by simp
  with assms show ?thesis by simp
next
  case (Cons h rest)
  have "sorted (map f (sort_key f xs))" by simp
  with Cons have le: "\<forall>z\<in>set (h # rest). f h \<le> f z" by auto
  have s: "set (h # rest) = set xs"
    using Cons set_sort [of f xs] by simp
  with le have "\<forall>y\<in>set xs. f h \<le> f y" by blast
  moreover from s have "h \<in> set xs" by auto
  ultimately show ?thesis using Cons by simp
qed

lemma getLastConnection_nonempty:
  "connections cm \<noteq> [] \<Longrightarrow>
   getLastConnection cm =
     (case sort_key (\<lambda>conn. - lastConnected conn) (connections cm) of
        [] \<Rightarrow> None
      | first # _ \<Rightarrow> Some first)"
  unfolding getLastConnection_def by (cases "connections cm") simp_all

text \<open>
  C9. Every successful \<^verbatim>\<open>saveCredentials\<close>, a first save or an edit alike, leaves under
  the id it returns a public record whose \<open>lastConnected\<close> is the instant of the save;
  no session is involved. Consequently, when the instants already stored are earlier
  than the save, \<^verbatim>\<open>getLastConnection\<close> returns the record just saved; when some are
  of the very millisecond of the save, it returns a record of that instant.
\<close>

theorem saveCredentials_lastConnected:
  assumes "saveCredentials p now salt cm c = Inr (i, cm')"
  shows "find (\<lambda>conn. conn_id conn = i) (connections cm') = Some (publicData now i c) \<and>
         lastConnected (publicData now i c) = now \<and>
         ((\<forall>conn\<in>set (connections cm). lastConnected conn < now) \<longrightarrow>
            getLastConnection cm' = Some (publicData now i c)) \<and>
         ((\<forall>conn\<in>set (connections cm). lastConnected conn \<le> now) \<longrightarrow>
            map_option lastConnected (getLastConnection cm') = Some now)"
proof (intro conjI impI)
  show "find (\<lambda>conn. conn_id conn = i) (connections cm') = Some (publicData now i c)"
    using assms by (rule saveCredentials_find)
  show lc: "lastConnected (publicData now i c) = now"
    by (simp add: publicData_def)
  assume earlier: "\<forall>conn\<in>set (connections cm). lastConnected conn < now"
  let ?pub = "publicData now i c"
  have mem: "?pub \<in> set (connections cm')"
    using assms by (rule saveCredentials_set)
  have "\<forall>y\<in>set (connections cm'). y = ?pub \<or> - lastConnected ?pub < - lastConnected y"
    using saveCredentials_set(2) [OF assms] earlier lc by auto
  with mem obtain rest where
    "sort_key (\<lambda>conn. - lastConnected conn) (connections cm') = ?pub # rest"
    using sort_key_head [of ?pub "connections cm'" "\<lambda>conn. - lastConnected conn"] by blast
  moreover from mem have "connections cm' \<noteq> []" by auto
  ultimately show "getLastConnection cm' = Some ?pub"
    by (simp add: getLastConnection_nonempty)
next
  assume le: "\<forall>conn\<in>set (connections cm). lastConnected conn \<le> now"
  let ?pub = "publicData now i c"
  have lc: "lastConnected ?pub = now"
    by (simp add: publicData_def)
  have mem: "?pub \<in> set (connections cm')"
    using assms by (rule saveCredentials_set)
  then have ne: "connections cm' \<noteq> []" by auto
  have all: "\<forall>y\<in>set (connections cm'). lastConnected y \<le> now"
    using saveCredentials_set(2) [OF assms] le lc by auto
  from sort_key_head_min [OF ne, of "\<lambda>conn. - lastConnected conn"] obtain h rest where
    h: "sort_key (\<lambda>conn. - lastConnected conn) (connections cm') = h # rest"
      "h \<in> set (connections cm')"
      "\<forall>y\<in>set (connections cm'). - lastConnected h \<le> - lastConnected y"
    by blast
  from h(3) mem lc have "now \<le> lastConnected h" by fastforce
  moreover from all h(2) have "lastConnected h \<le> now" by blast
  ultimately have "lastConnected h = now" by simp
  with h(1) ne show "map_option lastConnected (getLastConnection cm') = Some now"
    by (simp add: getLastConnection_nonempty)
qed

lemma demo_edit_basic:
  "saveCredentials demo_platform 2000 ''salt'' saved_basic
     (demo_basic\<lparr> cred_id := Some ''conn_01234567'', cred_name := ''dev2'' \<rparr>) =
   Inr (''conn_01234567'',
     saved_basic\<lparr> connections :=
       [\<lparr> name = ''dev2'', url = ''https://x/webdav'', authType = ''basic'',
          username = Some ''u'', lastConnected = 2000, lastLocalFolder = None,
          conn_id = ''conn_01234567'' \<rparr>] \<rparr>)"
  by (simp add: saveCredentials_def encryptData_def publicData_def
      sensitiveOf_def demo_platform_def demo_field_def demo_basic_def empty_store_def
      saved_basic_def Let_def)

theorem saveCredentials_lastConnected_witness:
  "saveCredentials demo_platform 2000 ''salt'' saved_basic
     (demo_basic\<lparr> cred_id := Some ''conn_01234567'', cred_name := ''dev2'' \<rparr>) =
   Inr (''conn_01234567'',
     saved_basic\<lparr> connections :=
       [\<lparr> name = ''dev2'', url = ''https://x/webdav'', authType = ''basic'',
          username = Some ''u'', lastConnected = 2000, lastLocalFolder = None,
          conn_id = ''conn_01234567'' \<rparr>] \<rparr>) \<and>
   getLastConnection (saved_basic\<lparr> connections :=
       [\<lparr> name = ''dev2'', url = ''https://x/webdav'', authType = ''basic'',
          username = Some ''u'', lastConnected = 2000, lastLocalFolder = None,
          conn_id = ''conn_01234567'' \<rparr>] \<rparr>) =
     Some \<lparr> name = ''dev2'', url = ''https://x/webdav'', authType = ''basic'',
          username = Some ''u'', lastConnected = 2000, lastLocalFolder = None,
          conn_id = ''conn_01234567'' \<rparr>"
proof -
  have e: "\<forall>conn\<in>set (connections saved_basic). lastConnected conn < 2000"
    by (simp add: saved_basic_def)
  from saveCredentials_lastConnected [OF demo_edit_basic] e demo_edit_basic
  show ?thesis by (simp add: publicData_def demo_basic_def)
qed

subsection \<open>What a save writes\<close>

text \<open>
  C1, as amended. A successful \<^verbatim>\<open>saveCredentials\<close> writes the secret bundle only as the
  ciphertext that \<^verbatim>\<open>encryptData\<close> returns for its serialization under the stored key,
  which it leaves as it is. The public records do not depend on the password, the token,
  the clientId or the clientSecret, nor on the username unless the authType is basic:
  credentials that differ in nothing else are saved to the same public records, under the
  same id. For basic auth the username is a field of the public record as well.
\<close>

theorem saveCredentials_secrets_encrypted:
  assumes "saveCredentials p now salt cm c = Inr (i, cm')"
  shows "(\<exists>ct. encryptData p cm salt (JSON_stringify p (sensitiveOf c)) = Inr ct \<and>
            sensitiveData cm' = (sensitiveData cm)(i \<mapsto> ct)) \<and>
         encryptionSalt cm' = encryptionSalt cm \<and>
         find (\<lambda>conn. conn_id conn = i) (connections cm') = Some (publicData now i c) \<and>
         username (publicData now i c) =
           (if cred_authType c = ''basic'' then cred_username c else None) \<and>
         (cred_id c2 = cred_id c \<and> cred_name c2 = cred_name c \<and> cred_url c2 = cred_url c \<and>
          cred_authType c2 = cred_authType c \<and>
          cred_lastLocalFolder c2 = cred_lastLocalFolder c \<and>
          (cred_authType c = ''basic'' \<longrightarrow> cred_username c2 = cred_username c) \<and>
          saveCredentials p now salt2 cm c2 = Inr (i2, cm2) \<longrightarrow>
            i2 = i \<and> connections cm2 = connections cm')"
proof (intro conjI impI)
  from saveCredentials_Inr [OF assms] obtain ct where
    ct: "encryptData p cm salt (JSON_stringify p (sensitiveOf c)) = Inr ct"
    and cm': "cm' = cm\<lparr> sensitiveData := (sensitiveData cm)(i \<mapsto> ct),
                      connections :=
                        (case findIndex (\<lambda>conn. conn_id conn = i) (connections cm) of
                           Some k \<Rightarrow> (connections cm)[k := publicData now i c]
                         | None \<Rightarrow> connections cm @ [publicData now i c]) \<rparr>"
    and i: "i = (case cred_id c of
                  None \<Rightarrow> generateConnectionId p now (cred_name c)
                | Some j \<Rightarrow> if j = [] then generateConnectionId p now (cred_name c) else j)"
    by blast
  from ct cm' show "\<exists>ct. encryptData p cm salt (JSON_stringify p (sensitiveOf c)) = Inr ct \<and>
            sensitiveData cm' = (sensitiveData cm)(i \<mapsto> ct)"
    by simp
  from cm' show "encryptionSalt cm' = encryptionSalt cm"
    by simp
  show "find (\<lambda>conn. conn_id conn = i) (connections cm') = Some (publicData now i c)"
    using assms by (rule saveCredentials_find)
  show "username (publicData now i c) =
      (if cred_authType c = ''basic'' then cred_username c else None)"
    by (simp add: publicData_def)
  assume same: "cred_id c2 = cred_id c \<and> cred_name c2 = cred_name c \<and> cred_url c2 = cred_url c \<and>
          cred_authType c2 = cred_authType c \<and>
          cred_lastLocalFolder c2 = cred_lastLocalFolder c \<and>
          (cred_authType c = ''basic'' \<longrightarrow> cred_username c2 = cred_username c) \<and>
          saveCredentials p now salt2 cm c2 = Inr (i2, cm2)"
  then have s2: "saveCredentials p now salt2 cm c2 = Inr (i2, cm2)"
    and eqs: "cred_id c2 = cred_id c" "cred_name c2 = cred_name c" "cred_url c2 = cred_url c"
      "cred_authType c2 = cred_authType c" "cred_lastLocalFolder c2 = cred_lastLocalFolder c"
    and un: "cred_authType c = ''basic'' \<longrightarrow> cred_username c2 = cred_username c"
    by blast+
  from saveCredentials_Inr [OF s2] have
    "i2 = (case cred_id c2 of
             None \<Rightarrow> generateConnectionId p now (cred_name c2)
           | Some j \<Rightarrow> if j = [] then generateConnectionId p now (cred_name c2) else j)"
    and c2: "connections cm2 =
      (case findIndex (\<lambda>conn. conn_id conn = i2) (connections cm) of
         Some k \<Rightarrow> (connections cm)[k := publicData now i2 c2]
       | None \<Rightarrow> connections cm @ [publicData now i2 c2])"
    by auto
  with eqs i show i2: "i2 = i"
    by (simp split: option.splits)
  have pub: "publicData now i c2 = publicData now i c"
    using eqs un by (simp add: publicData_def)
  from c2 i2 pub cm' show "connections cm2 = connections cm'"
    by (simp split: option.splits)
qed

lemma demo_save_other_password:
  "saveCredentials demo_platform 1000 ''pepper'' empty_store
     (demo_basic\<lparr> cred_password := Some ''q'' \<rparr>) =
   Inr (''conn_01234567'',
     saved_basic\<lparr> sensitiveData :=
       [''conn_01234567'' \<mapsto> ''key'' @ rev ''username:u;password:q;''] \<rparr>)"
  by (simp add: saveCredentials_def encryptData_def generateConnectionId_def publicData_def
      sensitiveOf_def demo_platform_def demo_field_def demo_basic_def empty_store_def
      saved_basic_def Let_def)

theorem saveCredentials_secrets_encrypted_witness:
  "saveCredentials demo_platform 1000 ''salt'' empty_store demo_basic =
     Inr (''conn_01234567'', saved_basic) \<and>
   encryptData demo_platform empty_store ''salt''
     (JSON_stringify demo_platform (sensitiveOf demo_basic)) = Inr ''key;p:drowssap;u:emanresu'' \<and>
   sensitiveData saved_basic = [''conn_01234567'' \<mapsto> ''key;p:drowssap;u:emanresu''] \<and>
   connections (saved_basic\<lparr> sensitiveData :=
       [''conn_01234567'' \<mapsto> ''key'' @ rev ''username:u;password:q;''] \<rparr>) =
     connections saved_basic"
proof -
  have same: "cred_id (demo_basic\<lparr> cred_password := Some ''q'' \<rparr>) = cred_id demo_basic \<and>
      cred_name (demo_basic\<lparr> cred_password := Some ''q'' \<rparr>) = cred_name demo_basic \<and>
      cred_url (demo_basic\<lparr> cred_password := Some ''q'' \<rparr>) = cred_url demo_basic \<and>
      cred_authType (demo_basic\<lparr> cred_password := Some ''q'' \<rparr>) = cred_authType demo_basic \<and>
      cred_lastLocalFolder (demo_basic\<lparr> cred_password := Some ''q'' \<rparr>) =
        cred_lastLocalFolder demo_basic \<and>
      (cred_authType demo_basic = ''basic'' \<longrightarrow>
        cred_username (demo_basic\<lparr> cred_password := Some ''q'' \<rparr>) = cred_username demo_basic)"
    by simp
  have e: "encryptData demo_platform empty_store ''salt''
      (JSON_stringify demo_platform (sensitiveOf demo_basic)) = Inr ''key;p:drowssap;u:emanresu''"
    by (simp add: encryptData_def sensitiveOf_def demo_platform_def demo_field_def
        demo_basic_def empty_store_def)
  from saveCredentials_secrets_encrypted [OF demo_save_basic,
      of "demo_basic\<lparr> cred_password := Some ''q'' \<rparr>" "''pepper''" "''conn_01234567''"
        "saved_basic\<lparr> sensitiveData :=
          [''conn_01234567'' \<mapsto> ''key'' @ rev ''username:u;password:q;''] \<rparr>"]
    same demo_save_other_password demo_save_basic e
  show ?thesis by (simp add: empty_store_def)
qed

text \<open>
  C1 as stated fails: saving the basic-auth example writes its username \<open>u\<close>, a field of
  its secret bundle, into the public record in cleartext.
\<close>

theorem saveCredentials_username_counterexample:
  "saveCredentials demo_platform 1000 ''salt'' empty_store demo_basic =
     Inr (''conn_01234567'', saved_basic) \<and>
   s_username (sensitiveOf demo_basic) = Some ''u'' \<and>
   map username (connections saved_basic) = [Some ''u''] \<and>
   sublist ''u'' ''u''"
  by (simp add: demo_save_basic) (simp add: sensitiveOf_def demo_basic_def saved_basic_def)

subsection \<open>The ids of the public records stay distinct\<close>

lemma saveCredentials_distinct:
  assumes "saveCredentials p now salt cm c = Inr (i, cm')"
    and "distinct (map conn_id (connections cm))"
  shows "distinct (map conn_id (connections cm'))"
proof -
  have pid: "conn_id (publicData now i c) = i" by (simp add: publicData_def)
  from saveCredentials_Inr [OF assms(1)] have
    c': "connections cm' =
      (case findIndex (\<lambda>conn. conn_id conn = i) (connections cm) of
         Some k \<Rightarrow> (connections cm)[k := publicData now i c]
       | None \<Rightarrow> connections cm @ [publicData now i c])"
    by auto
  show ?thesis
  proof (cases "findIndex (\<lambda>conn. conn_id conn = i) (connections cm)")
    case None
    then have "i \<notin> conn_id ` set (connections cm)"
      by (auto simp add: findIndex_None)
    with c' None pid assms(2) show ?thesis by simp
  next
    case (Some k)
    from findIndex_Some [OF Some] have "(map conn_id (connections cm))[k := i] = map conn_id (connections cm)"
      by (simp add: list_update_same_conv)
    with c' Some pid assms(2) show ?thesis by (simp add: map_update)
  qed
qed

lemma updateLastConnected_ids:
  "map conn_id (connections (updateLastConnected now cm i)) = map conn_id (connections cm)"
proof (cases "findIndex (\<lambda>conn. conn_id conn = i) (connections cm)")
  case None
  then show ?thesis by (simp add: updateLastConnected_def)
next
  case (Some k)
  from findIndex_Some [OF Some] have "k < length (connections cm)" by blast
  then have "(map conn_id (connections cm))[k := conn_id (connections cm ! k)] =
      map conn_id (connections cm)"
    by (simp add: list_update_same_conv)
  with Some show ?thesis by (simp add: updateLastConnected_def map_update)
qed

lemma updateLastLocalFolder_ids:
  "map conn_id (connections (updateLastLocalFolder cm i folder)) = map conn_id (connections cm)"
proof (cases "findIndex (\<lambda>conn. conn_id conn = i) (connections cm)")
  case None
  then show ?thesis by (simp add: updateLastLocalFolder_def)
next
  case (Some k)
  from findIndex_Some [OF Some] have "k < length (connections cm)" by blast
  then have "(map conn_id (connections cm))[k := conn_id (connections cm ! k)] =
      map conn_id (connections cm)"
    by (simp add: list_update_same_conv)
  with Some show ?thesis by (simp add: updateLastLocalFolder_def map_update)
qed

lemma clearAll_distinct: "distinct (map conn_id (connections (clearAll cm)))"
  by (simp add: clearAll_def)

lemma empty_store_distinct: "distinct (map conn_id (connections empty_store))"
  by (simp add: empty_store_def)

section \<open>Deleting a connection\<close>

subsection \<open>The timers of the event loop\<close>

lemma timers_registered_start: "timers_registered start"
  by (simp add: timers_registered_def start_def)

lemma scheduleTokenRefresh_registered:
  assumes "timers_registered s"
  shows "timers_registered (scheduleTokenRefresh s k cid cs d)"
proof -
  from assms have reg: "\<And>h t. timers s h = Some t \<Longrightarrow> refreshTimers s (t_connectionId t) = Some h"
    and below: "\<And>k h. refreshTimers s k = Some h \<Longrightarrow> h < next_timer s"
    by (auto simp add: timers_registered_def)
  have fresh: "\<And>h t. timers s h = Some t \<Longrightarrow> h \<noteq> next_timer s"
    using reg below by fastforce
  show ?thesis
  proof (cases "refreshTimers s k")
    case None
    then have nk: "\<And>h t. timers s h = Some t \<Longrightarrow> t_connectionId t \<noteq> k"
      using reg by fastforce
    show ?thesis
      unfolding timers_registered_def scheduleTokenRefresh_def Let_def
      using None reg below fresh nk by (auto simp add: less_Suc_eq)
  next
    case (Some h0)
    have nk: "\<And>h t. timers s h = Some t \<Longrightarrow> h \<noteq> h0 \<Longrightarrow> t_connectionId t \<noteq> k"
      using reg Some by fastforce
    show ?thesis
      unfolding timers_registered_def scheduleTokenRefresh_def Let_def
      using Some reg below fresh nk by (auto simp add: less_Suc_eq)
  qed
qed

lemma timers_registered_console_clock:
  "timers_registered (s\<lparr> console := c, clock := t \<rparr>) = timers_registered s"
  "timers_registered (s\<lparr> console := c \<rparr>) = timers_registered s"
  "timers_registered (s\<lparr> tokens := m \<rparr>) = timers_registered s"
  by (simp_all add: timers_registered_def)

lemma requestNewToken_registered:
  assumes "timers_registered s"
  shows "timers_registered (snd (requestNewToken p env s k cid cs))"
  using assms
  by (auto simp add: requestNewToken_def Let_def timers_registered_console_clock
      intro!: scheduleTokenRefresh_registered split: prod.splits sum.splits)

lemma getAccessToken_registered:
  assumes "timers_registered s"
  shows "timers_registered (snd (getAccessToken p env s k cid cs force))"
  using assms
  by (auto simp add: getAccessToken_def Let_def timers_registered_console_clock
      intro!: requestNewToken_registered split: option.splits)

lemma clearConnection_registered:
  assumes "timers_registered s"
  shows "timers_registered (clearConnection s k)"
proof -
  from assms have reg: "\<And>h t. timers s h = Some t \<Longrightarrow> refreshTimers s (t_connectionId t) = Some h"
    and below: "\<And>k h. refreshTimers s k = Some h \<Longrightarrow> h < next_timer s"
    by (auto simp add: timers_registered_def)
  show ?thesis
  proof (cases "refreshTimers s k")
    case None
    with reg below show ?thesis
      unfolding timers_registered_def clearConnection_def Let_def by auto
  next
    case (Some h0)
    have nk: "\<And>h t. timers s h = Some t \<Longrightarrow> h \<noteq> h0 \<Longrightarrow> t_connectionId t \<noteq> k"
      using reg Some by fastforce
    show ?thesis
      unfolding timers_registered_def clearConnection_def Let_def
      using Some reg below nk by auto
  qed
qed

lemma clearConnection_cleared:
  "tokens (clearConnection s k) k = None"
  "refreshTimers (clearConnection s k) k = None"
  "refreshTimers s k = Some h \<Longrightarrow> timers (clearConnection s k) h = None"
  by (simp_all add: clearConnection_def Let_def split: option.splits)

lemma clearConnection_no_timer:
  assumes "timers_registered s" and "timers (clearConnection s k) h = Some t"
  shows "t_connectionId t \<noteq> k"
proof
  assume k: "t_connectionId t = k"
  from clearConnection_registered [OF assms(1)] assms(2)
  have "refreshTimers (clearConnection s k) (t_connectionId t) = Some h"
    by (simp add: timers_registered_def)
  with k show False by (simp add: clearConnection_cleared)
qed

lemma fireTimer_not_pending: "timers s h = None \<Longrightarrow> fireTimer p env s h = s"
  by (simp add: fireTimer_def)

lemma fireTimer_registered:
  assumes "timers_registered s"
  shows "timers_registered (fireTimer p env s h)"
proof (cases "timers s h")
  case None
  with assms show ?thesis by (simp add: fireTimer_def)
next
  case (Some t)
  let ?s1 = "s\<lparr> timers := (timers s)(h := None), clock := max (clock s) (fireAt t) \<rparr>"
  let ?k = "t_connectionId t"
  from assms have reg: "\<And>h t. timers s h = Some t \<Longrightarrow> refreshTimers s (t_connectionId t) = Some h"
    and below: "\<And>k h. refreshTimers s k = Some h \<Longrightarrow> h < next_timer s"
    by (auto simp add: timers_registered_def)
  have r1: "timers_registered ?s1"
    using reg below by (auto simp add: timers_registered_def)
  obtain r s2 where req: "requestNewToken p env ?s1 ?k (t_clientId t) (t_clientSecret t) = (r, s2)"
    by (cases "requestNewToken p env ?s1 ?k (t_clientId t) (t_clientSecret t)")
  from requestNewToken_registered [OF r1, of p env ?k "t_clientId t" "t_clientSecret t"] req
  have r2: "timers_registered s2" by simp
  show ?thesis
  proof (cases r)
    case (Inr tok)
    with Some req r2 show ?thesis by (simp add: fireTimer_def)
  next
    case (Inl e)
    with req have s2: "timers s2 = timers ?s1" "refreshTimers s2 = refreshTimers ?s1"
      "next_timer s2 = next_timer ?s1"
      by (auto simp add: requestNewToken_def Let_def split: prod.splits sum.splits if_splits)
    have nk: "\<And>h' t'. timers s2 h' = Some t' \<Longrightarrow> t_connectionId t' \<noteq> ?k"
    proof
      fix h' t'
      assume a: "timers s2 h' = Some t'" "t_connectionId t' = ?k"
      with s2 have "h' \<noteq> h" "timers s h' = Some t'" by (auto split: if_splits)
      with reg [of h' t'] reg [OF Some] a(2) show False by simp
    qed
    have "timers_registered (s2\<lparr> tokens := (tokens s2)(?k := None),
        refreshTimers := (refreshTimers s2)(?k := None) \<rparr>)"
      using r2 nk by (auto simp add: timers_registered_def)
    with Some req Inl show ?thesis by (simp add: fireTimer_def)
  qed
qed

subsection \<open>\<^verbatim>\<open>deleteCredentials\<close>\<close>

lemma findIndex_find: "findIndex P xs = Some k \<Longrightarrow> find P xs = Some (xs ! k)"
proof (induction xs arbitrary: k)
  case Nil
  then show ?case by simp
next
  case (Cons x xs)
  then show ?case by (cases "P x") auto
qed

lemma splice1_distinct:
  assumes "distinct (map f xs)" and "k < length xs"
  shows "f (xs ! k) \<notin> f ` set (splice1 k xs)"
    and "splice1 k xs = filter (\<lambda>x. f x \<noteq> f (xs ! k)) xs"
proof -
  have xs: "xs = take k xs @ xs ! k # drop (Suc k) xs"
    using assms(2) by (rule id_take_nth_drop)
  with assms(1) have d: "distinct (map f (take k xs) @ f (xs ! k) # map f (drop (Suc k) xs))"
    by (metis list.simps(9) map_append)
  then show 1: "f (xs ! k) \<notin> f ` set (splice1 k xs)"
    by (auto simp add: splice1_def)
  let ?P = "\<lambda>x. f x \<noteq> f (xs ! k)"
  from 1 have "\<forall>x\<in>set (take k xs) \<union> set (drop (Suc k) xs). ?P x"
    unfolding splice1_def set_append by (intro ballI notI) (metis imageI)
  then have "filter ?P (take k xs) = take k xs" "filter ?P (drop (Suc k) xs) = drop (Suc k) xs"
    by (simp_all add: filter_id_conv)
  then have "filter ?P (take k xs @ xs ! k # drop (Suc k) xs) = take k xs @ drop (Suc k) xs"
    by simp
  moreover from xs have "filter ?P xs = filter ?P (take k xs @ xs ! k # drop (Suc k) xs)"
    by (rule arg_cong)
  ultimately show "splice1 k xs = filter ?P xs"
    by (simp add: splice1_def)
qed

lemma splice1_ids_distinct:
  "distinct (map f xs) \<Longrightarrow> distinct (map f (splice1 k xs))"
  by (simp add: splice1_def take_map [symmetric] drop_map [symmetric]
      set_take_disj_set_drop_if_distinct)

text \<open>
  C6. \<^verbatim>\<open>deleteCredentials\<close> returns true exactly when a public record with the id
  existed, and changes nothing otherwise. When one existed, the ciphertext stored for the
  id is gone, and so is the public record (the ids of the records being distinct, as
  every save and delete keeps them). For an oauth2 record, the OAuth2 manager being
  injected (as main.js does), the token cache entry is evicted and the refresh timer is
  cancelled: the handle that was registered is no longer pending, firing it does nothing,
  and, every pending timer being the registered one of its connection, no pending timer
  is left that would refresh this connection.
\<close>

theorem deleteCredentials_cascade:
  assumes "deleteCredentials cm s i = (r, cm', s')"
  shows "r = (\<exists>conn\<in>set (connections cm). conn_id conn = i) \<and>
         (\<not> r \<longrightarrow> cm' = cm \<and> s' = s) \<and>
         (r \<longrightarrow> sensitiveData cm' i = None \<and>
                (\<forall>j. j \<noteq> i \<longrightarrow> sensitiveData cm' j = sensitiveData cm j)) \<and>
         (r \<and> distinct (map conn_id (connections cm)) \<longrightarrow>
            (\<forall>conn\<in>set (connections cm'). conn_id conn \<noteq> i) \<and>
            connections cm' = filter (\<lambda>conn. conn_id conn \<noteq> i) (connections cm)) \<and>
         (oauth2Manager_set cm \<and>
          map_option authType (find (\<lambda>conn. conn_id conn = i) (connections cm)) = Some ''oauth2'' \<longrightarrow>
            tokens s' (Some i) = None \<and> refreshTimers s' (Some i) = None \<and>
            (\<forall>h. refreshTimers s (Some i) = Some h \<longrightarrow>
               timers s' h = None \<and> fireTimer p env s' h = s') \<and>
            (timers_registered s \<longrightarrow>
               timers_registered s' \<and>
               (\<forall>h t. timers s' h = Some t \<longrightarrow> t_connectionId t \<noteq> Some i)))"
proof (cases "findIndex (\<lambda>conn. conn_id conn = i) (connections cm)")
  case None
  with assms have "r = False" "cm' = cm" "s' = s"
    by (simp_all add: deleteCredentials_def)
  moreover from None have "\<forall>conn\<in>set (connections cm). conn_id conn \<noteq> i"
    by (simp add: findIndex_None)
  moreover from this have "find (\<lambda>conn. conn_id conn = i) (connections cm) = None"
    by (simp add: find_None_iff)
  ultimately show ?thesis by simp
next
  case (Some k)
  let ?conn = "connections cm ! k"
  from findIndex_Some [OF Some] have k: "k < length (connections cm)" "conn_id ?conn = i"
    by blast+
  from findIndex_find [OF Some] have f: "find (\<lambda>conn. conn_id conn = i) (connections cm) = Some ?conn" .
  from assms Some have r: "r = True"
    and cm': "cm' = cm\<lparr> connections := splice1 k (connections cm),
                        sensitiveData := (sensitiveData cm)(i := None) \<rparr>"
    and s': "s' = (if oauth2Manager_set cm \<and> authType ?conn = ''oauth2''
                   then clearConnection s (Some i) else s)"
    by (simp_all add: deleteCredentials_def Let_def)
  have ex: "\<exists>conn\<in>set (connections cm). conn_id conn = i"
    using k by (auto intro: bexI [of _ ?conn])
  have gone: "distinct (map conn_id (connections cm)) \<Longrightarrow>
      (\<forall>conn\<in>set (connections cm'). conn_id conn \<noteq> i) \<and>
      connections cm' = filter (\<lambda>conn. conn_id conn \<noteq> i) (connections cm)"
    using splice1_distinct [of conn_id "connections cm" k] k cm' by auto
  show ?thesis
  proof (intro conjI impI)
    show "r = (\<exists>conn\<in>set (connections cm). conn_id conn = i)"
      using r ex by simp
    show "cm' = cm" if "\<not> r"
      using that r by simp
    show "s' = s" if "\<not> r"
      using that r by simp
    show "sensitiveData cm' i = None"
      by (simp add: cm')
    show "\<forall>j. j \<noteq> i \<longrightarrow> sensitiveData cm' j = sensitiveData cm j"
      by (simp add: cm')
    show "\<forall>conn\<in>set (connections cm'). conn_id conn \<noteq> i"
      if "r \<and> distinct (map conn_id (connections cm))"
      using that gone by blast
    show "connections cm' = filter (\<lambda>conn. conn_id conn \<noteq> i) (connections cm)"
      if "r \<and> distinct (map conn_id (connections cm))"
      using that gone by blast
  next
    assume "oauth2Manager_set cm \<and>
      map_option authType (find (\<lambda>conn. conn_id conn = i) (connections cm)) = Some ''oauth2''"
    with f s' have c: "s' = clearConnection s (Some i)"
      by simp
    show "tokens s' (Some i) = None"
      unfolding c by (rule clearConnection_cleared)
    show "refreshTimers s' (Some i) = None"
      unfolding c by (rule clearConnection_cleared)
    show "\<forall>h. refreshTimers s (Some i) = Some h \<longrightarrow>
        timers s' h = None \<and> fireTimer p env s' h = s'"
      unfolding c by (simp add: clearConnection_cleared fireTimer_not_pending)
    show "timers_registered s'" if "timers_registered s"
      unfolding c using that by (rule clearConnection_registered)
    show "\<forall>h t. timers s' h = Some t \<longrightarrow> t_connectionId t \<noteq> Some i"
      if "timers_registered s"
      unfolding c using that clearConnection_no_timer by blast
  qed
qed

lemma deleteCredentials_distinct:
  assumes "deleteCredentials cm s i = (r, cm', s')"
    and "distinct (map conn_id (connections cm))"
  shows "distinct (map conn_id (connections cm'))"
  using assms
  by (auto simp add: deleteCredentials_def Let_def splice1_ids_distinct split: option.splits)

lemma demo_first_timer: "refreshTimers (snd demo_first) (Some ''conn_1'') = Some 0"
proof -
  let ?s0 = "start\<lparr> console := console start @ [GetAccessToken (Some ''conn_1'') False] \<rparr>"
  have m: "demo_first =
        requestNewToken demo_platform (demo_env ''access_token:T1;expires_in:3600;'' (\<lambda>n. Inr 0))
          ?s0 (Some ''conn_1'') (Some ''id'') (Some ''secret'')"
    unfolding demo_first_def by (rule getAccessToken_miss) (simp add: cached_def start_sel)
  have "(''T1'' :: string) \<noteq> []" and "(200 :: nat) \<le> 200" and "(200 :: nat) < 300"
    by simp_all
  note r = requestNewToken_success [where k = "Some ''conn_1''" and cid = "Some ''id''"
      and cs = "Some ''secret''" and s = ?s0, OF demo_endpoint this(2,3) demo_parse_3600
      demo_token_json_sel(1) this(1)]
  show ?thesis
    unfolding m r by (simp add: scheduleTokenRefresh_def Let_def start_sel)
qed

lemma demo_first_registered: "timers_registered (snd demo_first)"
  unfolding demo_first_def using timers_registered_start by (rule getAccessToken_registered)

lemma demo_delete_oauth2:
  "deleteCredentials saved_oauth2 (snd demo_first) ''conn_1'' =
     (True, empty_store, clearConnection (snd demo_first) (Some ''conn_1''))"
  by (simp add: deleteCredentials_def saved_oauth2_def empty_store_def splice1_def Let_def)

lemma demo_delete_unknown:
  "deleteCredentials empty_store start ''conn_1'' = (False, empty_store, start)"
  by (simp add: deleteCredentials_def empty_store_def)

theorem deleteCredentials_cascade_witness:
  "deleteCredentials saved_oauth2 (snd demo_first) ''conn_1'' =
     (True, empty_store, clearConnection (snd demo_first) (Some ''conn_1'')) \<and>
   connections empty_store = [] \<and>
   sensitiveData empty_store ''conn_1'' = None \<and>
   refreshTimers (snd demo_first) (Some ''conn_1'') = Some 0 \<and>
   tokens (clearConnection (snd demo_first) (Some ''conn_1'')) (Some ''conn_1'') = None \<and>
   refreshTimers (clearConnection (snd demo_first) (Some ''conn_1'')) (Some ''conn_1'') = None \<and>
   timers (clearConnection (snd demo_first) (Some ''conn_1'')) 0 = None \<and>
   fireTimer demo_platform (demo_env ''access_token:T1;'' (\<lambda>n. Inr 0))
     (clearConnection (snd demo_first) (Some ''conn_1'')) 0 =
     clearConnection (snd demo_first) (Some ''conn_1'') \<and>
   timers_registered (clearConnection (snd demo_first) (Some ''conn_1'')) \<and>
   deleteCredentials empty_store start ''conn_1'' = (False, empty_store, start)"
proof -
  let ?s' = "clearConnection (snd demo_first) (Some ''conn_1'')"
  have true: "True \<and> distinct (map conn_id (connections saved_oauth2))"
    by (simp add: saved_oauth2_def)
  have oauth: "oauth2Manager_set saved_oauth2 \<and>
      map_option authType (find (\<lambda>conn. conn_id conn = ''conn_1'') (connections saved_oauth2)) =
        Some ''oauth2''"
    by (simp add: saved_oauth2_def empty_store_def)
  note c = deleteCredentials_cascade [OF demo_delete_oauth2,
      of demo_platform "demo_env ''access_token:T1;'' (\<lambda>n. Inr 0)"]
  from c true have 1: "connections empty_store = []"
    by (simp add: empty_store_def)
  from c have 2: "sensitiveData empty_store ''conn_1'' = None"
    by blast
  from c oauth have 3: "tokens ?s' (Some ''conn_1'') = None"
    "refreshTimers ?s' (Some ''conn_1'') = None"
    by blast+
  from c oauth demo_first_timer have 4: "timers ?s' 0 = None"
    "fireTimer demo_platform (demo_env ''access_token:T1;'' (\<lambda>n. Inr 0)) ?s' 0 = ?s'"
    by blast+
  from c oauth demo_first_registered have 5: "timers_registered ?s'"
    by blast
  from deleteCredentials_cascade [OF demo_delete_unknown]
  have 6: "deleteCredentials empty_store start ''conn_1'' = (False, empty_store, start)"
    by (simp add: demo_delete_unknown)
  from demo_delete_oauth2 1 2 demo_first_timer 3 4 5 6 show ?thesis
    by simp
qed

section \<open>Testing a connection\<close>

subsection \<open>What each step writes to the console\<close>

lemma getAccessToken_console:
  "console (snd (getAccessToken p env s k cid cs force)) =
     console s @ GetAccessToken k force # (if cached s k \<and> \<not> force then [] else [TokenRequest k])"
proof (cases "cached s k \<and> \<not> force")
  case True
  then obtain e where "tokens s k = Some e" "clock s < expiresAt e"
    by (auto simp add: cached_def split: option.splits)
  with True show ?thesis by (simp add: getAccessToken_hit)
next
  case False
  then have "\<not> cached s k \<or> force" by blast
  with False show ?thesis
    by (simp add: getAccessToken_miss requestNewToken_console)
qed

lemma getAccessToken_counts:
  assumes "getAccessToken p env s k cid cs force = (r, s')"
  shows "forced_refreshes s' = forced_refreshes s + (if force then 1 else 0)"
    and "initializations s' = initializations s"
    and "listings s' = listings s"
proof -
  from assms getAccessToken_console [of p env s k cid cs force]
  have c: "console s' =
      console s @ GetAccessToken k force # (if cached s k \<and> \<not> force then [] else [TokenRequest k])"
    by simp
  show "forced_refreshes s' = forced_refreshes s + (if force then 1 else 0)"
    by (simp add: forced_refreshes_def c isForcedRefresh_def)
  show "initializations s' = initializations s"
    by (simp add: initializations_def c)
  show "listings s' = listings s"
    by (simp add: listings_def c)
qed

lemma getAccessToken_forced_first:
  assumes "getAccessToken p env s k cid cs True = (r, s')"
  shows "console s' = console s @ [GetAccessToken k True, TokenRequest k]"
  using assms getAccessToken_console [of p env s k cid cs True] by simp

lemma requestNewToken_error_status:
  "requestNewToken p env s k cid cs = (Inl e, s') \<Longrightarrow> status e = None"
  by (auto simp add: requestNewToken_def Let_def split: prod.splits sum.splits if_splits)

lemma getAccessToken_error_status:
  "getAccessToken p env s k cid cs force = (Inl e, s') \<Longrightarrow> status e = None"
  by (auto simp add: getAccessToken_def Let_def split: option.splits if_splits
      dest: requestNewToken_error_status)

lemma console_mark_counts:
  "forced_refreshes (s\<lparr> console := console s @ [InitializeClient] \<rparr>) = forced_refreshes s"
  "initializations (s\<lparr> console := console s @ [InitializeClient] \<rparr>) = initializations s + 1"
  "listings (s\<lparr> console := console s @ [InitializeClient] \<rparr>) = listings s"
  by (simp_all add: forced_refreshes_def initializations_def listings_def isForcedRefresh_def)

lemma initializeClient_counts:
  assumes "initializeClient p env wm s c = (r, wm', s')"
  shows "forced_refreshes s' = forced_refreshes s"
    and "initializations s' = initializations s + 1"
    and "listings s' = listings s"
    and "wd_oauth2Manager_set wm' = wd_oauth2Manager_set wm"
    and "\<forall>e. r = Inl e \<longrightarrow> status e = None"
    and "cred_authType c = ''oauth2'' \<and> r = Inr () \<longrightarrow> wd_oauth2Manager_set wm"
proof -
  let ?s0 = "s\<lparr> console := console s @ [InitializeClient] \<rparr>"
  let ?g = "getAccessToken p env ?s0 (cred_id c) (cred_clientId c) (cred_clientSecret c) False"
  obtain gr gs where g: "?g = (gr, gs)" by (cases ?g)
  note gc = getAccessToken_counts [OF g]
  have s': "s' = ?s0 \<or> s' = gs"
    using assms g by (auto simp add: initializeClient_def Let_def split: if_splits sum.splits)
  then show "forced_refreshes s' = forced_refreshes s"
    using gc(1) by (auto simp add: console_mark_counts)
  from s' show "initializations s' = initializations s + 1"
    using gc(2) by (auto simp add: console_mark_counts)
  from s' show "listings s' = listings s"
    using gc(3) by (auto simp add: console_mark_counts)
  show "wd_oauth2Manager_set wm' = wd_oauth2Manager_set wm"
    using assms g by (auto simp add: initializeClient_def Let_def split: if_splits sum.splits)
  show "\<forall>e. r = Inl e \<longrightarrow> status e = None"
    using assms g getAccessToken_error_status [of p env ?s0]
    by (auto simp add: initializeClient_def Let_def split: if_splits sum.splits)
  show "cred_authType c = ''oauth2'' \<and> r = Inr () \<longrightarrow> wd_oauth2Manager_set wm"
    using assms by (auto simp add: initializeClient_def Let_def split: if_splits)
qed

lemma headerToken_counts:
  assumes "headerToken p env wm s c = (r, s')"
  shows "forced_refreshes s' = forced_refreshes s"
    and "initializations s' = initializations s"
    and "listings s' = listings s"
    and "\<forall>e. r = Inl e \<longrightarrow> status e = None"
proof -
  let ?g = "getAccessToken p env s (cred_id c) (cred_clientId c) (cred_clientSecret c) False"
  obtain gr gs where g: "?g = (gr, gs)" by (cases ?g)
  note gc = getAccessToken_counts [OF g]
  have s': "s' = s \<or> s' = gs"
    using assms g
    by (auto simp add: headerToken_def split: if_splits option.splits sum.splits)
  then show "forced_refreshes s' = forced_refreshes s"
    using gc(1) by auto
  from s' show "initializations s' = initializations s"
    using gc(2) by auto
  from s' show "listings s' = listings s"
    using gc(3) by auto
  show "\<forall>e. r = Inl e \<longrightarrow> status e = None"
    using assms g getAccessToken_error_status [of p env s]
    by (auto simp add: headerToken_def split: if_splits option.splits sum.splits)
qed

lemma getDirectoryContents_counts:
  assumes "getDirectoryContents env s = (r, s')"
  shows "forced_refreshes s' = forced_refreshes s"
    and "initializations s' = initializations s"
    and "listings s' = listings s + 1"
    and "r = snd (webdav_server env (listings s))"
  using assms
  by (auto simp add: getDirectoryContents_def Let_def forced_refreshes_def
      initializations_def listings_def isForcedRefresh_def split: prod.splits)

lemma getAccessToken_prefix:
  "getAccessToken p env s k cid cs force = (r, s') \<Longrightarrow> prefix (console s) (console s')"
  using getAccessToken_console [of p env s k cid cs force] by (simp add: prefix_def)

lemma initializeClient_prefix:
  assumes "initializeClient p env wm s c = (r, wm', s')"
  shows "prefix (console s) (console s')"
proof -
  let ?s0 = "s\<lparr> console := console s @ [InitializeClient] \<rparr>"
  let ?g = "getAccessToken p env ?s0 (cred_id c) (cred_clientId c) (cred_clientSecret c) False"
  obtain gr gs where g: "?g = (gr, gs)" by (cases ?g)
  have "prefix (console s) (console ?s0)" by simp
  moreover from getAccessToken_prefix [OF g] have "prefix (console ?s0) (console gs)" .
  moreover have "s' = ?s0 \<or> s' = gs"
    using assms g by (auto simp add: initializeClient_def Let_def split: if_splits sum.splits)
  ultimately show ?thesis using prefix_order.trans by blast
qed

lemma getDirectoryContents_prefix:
  "getDirectoryContents env s = (r, s') \<Longrightarrow> prefix (console s) (console s')"
  by (auto simp add: getDirectoryContents_def Let_def split: prod.splits)

subsection \<open>The first attempt\<close>

lemma firstAttempt_counts:
  assumes "firstAttempt p env wm s c = (r, wm1, s1)"
  shows "forced_refreshes s1 = forced_refreshes s"
    and "initializations s1 = initializations s + 1"
    and "listings s1 \<le> listings s + 1"
    and "wd_oauth2Manager_set wm1 = wd_oauth2Manager_set wm"
    and "\<forall>e. r = Inl e \<and> status e \<noteq> None \<longrightarrow>
           listings s1 = listings s + 1 \<and>
           (cred_authType c = ''oauth2'' \<longrightarrow> wd_oauth2Manager_set wm1)"
    and "\<forall>n. r = Inr n \<longrightarrow> listings s1 = listings s + 1"
proof -
  obtain ir wmi si where i: "initializeClient p env wm s c = (ir, wmi, si)"
    by (cases "initializeClient p env wm s c") auto
  note ic = initializeClient_counts [OF i]
  obtain hr sh where h: "headerToken p env wmi si c = (hr, sh)"
    by (cases "headerToken p env wmi si c")
  note hc = headerToken_counts [OF h]
  obtain dr sd where d: "getDirectoryContents env sh = (dr, sd)"
    by (cases "getDirectoryContents env sh")
  note dc = getDirectoryContents_counts [OF d]
  consider (init) e where "ir = Inl e" "r = Inl e" "wm1 = wmi" "s1 = si"
    | (header) e where "ir = Inr ()" "hr = Inl e" "r = Inl e" "wm1 = wmi" "s1 = sh"
    | (listed) "ir = Inr ()" "r = dr" "wm1 = wmi" "s1 = sd"
    using assms i h d by (auto simp add: firstAttempt_def split: sum.splits)
  then have all: "forced_refreshes s1 = forced_refreshes s \<and>
      initializations s1 = initializations s + 1 \<and>
      listings s1 \<le> listings s + 1 \<and>
      wd_oauth2Manager_set wm1 = wd_oauth2Manager_set wm \<and>
      (\<forall>e. r = Inl e \<and> status e \<noteq> None \<longrightarrow>
           listings s1 = listings s + 1 \<and>
           (cred_authType c = ''oauth2'' \<longrightarrow> wd_oauth2Manager_set wm1)) \<and>
      (\<forall>n. r = Inr n \<longrightarrow> listings s1 = listings s + 1)"
  proof cases
    case init
    with ic show ?thesis by simp
  next
    case header
    with ic hc show ?thesis by simp
  next
    case listed
    with ic hc dc show ?thesis by simp
  qed
  then show "forced_refreshes s1 = forced_refreshes s"
    and "initializations s1 = initializations s + 1"
    and "listings s1 \<le> listings s + 1"
    and "wd_oauth2Manager_set wm1 = wd_oauth2Manager_set wm"
    and "\<forall>e. r = Inl e \<and> status e \<noteq> None \<longrightarrow>
           listings s1 = listings s + 1 \<and>
           (cred_authType c = ''oauth2'' \<longrightarrow> wd_oauth2Manager_set wm1)"
    and "\<forall>n. r = Inr n \<longrightarrow> listings s1 = listings s + 1"
    by blast+
qed

subsection \<open>The retry\<close>

lemma retryWithFreshToken_counts:
  assumes "retryWithFreshToken p env wm s c = (ok, wm', s')"
    and "wd_oauth2Manager_set wm"
  shows "prefix (console s @ [GetAccessToken (cred_id c) True, TokenRequest (cred_id c)])
           (console s')"
    and "forced_refreshes s' = forced_refreshes s + 1"
    and "initializations s' \<le> initializations s + 1"
    and "listings s' \<le> listings s + 1"
    and "ok = (initializations s' = initializations s + 1 \<and> listings s' = listings s + 1 \<and>
               (\<exists>n. snd (webdav_server env (listings s)) = Inr n))"
proof -
  let ?k = "cred_id c" and ?cid = "cred_clientId c" and ?cs = "cred_clientSecret c"
  obtain fr s1 where f: "getAccessToken p env s ?k ?cid ?cs True = (fr, s1)"
    by (cases "getAccessToken p env s ?k ?cid ?cs True")
  note fc = getAccessToken_counts [OF f] and ff = getAccessToken_forced_first [OF f]
  obtain ir wm2 s2 where i: "initializeClient p env wm s1 c = (ir, wm2, s2)"
    by (cases "initializeClient p env wm s1 c") auto
  note ic = initializeClient_counts [OF i] and ip = initializeClient_prefix [OF i]
  obtain tr s3 where t: "getAccessToken p env s2 ?k ?cid ?cs False = (tr, s3)"
    by (cases "getAccessToken p env s2 ?k ?cid ?cs False")
  note tc = getAccessToken_counts [OF t] and tp = getAccessToken_prefix [OF t]
  obtain dr s4 where d: "getDirectoryContents env s3 = (dr, s4)"
    by (cases "getDirectoryContents env s3")
  note dc = getDirectoryContents_counts [OF d] and dp = getDirectoryContents_prefix [OF d]
  have p1: "prefix (console s @ [GetAccessToken ?k True, TokenRequest ?k]) (console s1)"
    using ff by simp
  have p2: "prefix (console s @ [GetAccessToken ?k True, TokenRequest ?k]) (console s2)"
    using p1 ip by (rule prefix_order.trans)
  have p3: "prefix (console s @ [GetAccessToken ?k True, TokenRequest ?k]) (console s3)"
    using p2 tp by (rule prefix_order.trans)
  have p4: "prefix (console s @ [GetAccessToken ?k True, TokenRequest ?k]) (console s4)"
    using p3 dp by (rule prefix_order.trans)
  consider (refresh) e where "fr = Inl e" "ok = False" "s' = s1"
    | (init) e where "ir = Inl e" "ok = False" "s' = s2"
    | (token) e where "ir = Inr ()" "tr = Inl e" "ok = False" "s' = s3"
    | (listed) "ir = Inr ()" "ok = (\<exists>n. dr = Inr n)" "s' = s4"
    using assms f i t d by (auto simp add: retryWithFreshToken_def split: sum.splits)
  then have all: "prefix (console s @ [GetAccessToken ?k True, TokenRequest ?k]) (console s') \<and>
      forced_refreshes s' = forced_refreshes s + 1 \<and>
      initializations s' \<le> initializations s + 1 \<and>
      listings s' \<le> listings s + 1 \<and>
      ok = (initializations s' = initializations s + 1 \<and> listings s' = listings s + 1 \<and>
               (\<exists>n. snd (webdav_server env (listings s)) = Inr n))"
  proof cases
    case refresh
    with fc p1 show ?thesis by simp
  next
    case init
    with fc ic p2 show ?thesis by simp
  next
    case token
    with fc ic tc p3 show ?thesis by simp
  next
    case listed
    with fc ic tc dc p4 show ?thesis by simp
  qed
  then show "prefix (console s @ [GetAccessToken ?k True, TokenRequest ?k]) (console s')"
    and "forced_refreshes s' = forced_refreshes s + 1"
    and "initializations s' \<le> initializations s + 1"
    and "listings s' \<le> listings s + 1"
    and "ok = (initializations s' = initializations s + 1 \<and> listings s' = listings s + 1 \<and>
               (\<exists>n. snd (webdav_server env (listings s)) = Inr n))"
    by blast+
qed

subsection \<open>\<^verbatim>\<open>testConnection\<close>\<close>

text \<open>
  C5, as amended. The first attempt initializes the client once, lists at most once and
  forces no refresh. When it succeeds the answer is true. When it fails with a 401 and
  the connection is oauth2, \<^verbatim>\<open>testConnection\<close> forces exactly one token refresh, first
  of all and with a request to the token endpoint, and then runs each further step only
  if the one before it succeeded: when the forced refresh fails it stops there with
  false, having initialized and listed nothing more; when the refresh succeeds it
  initializes the client once more, and stops with false when that fails, having listed
  nothing more; it then reads the token once more, and stops with false when that
  fails; and then lists once more, after which it stops with the outcome of that
  listing. So the answer is true exactly when the second listing was reached and
  succeeded, and nothing is tried after it. In every other case, a connection that is
  not oauth2 or a failure that carries another status or none, the answer is false and
  nothing further happens. (The four steps of the retry are named by the hypotheses.)
\<close>

theorem testConnection_single_retry:
  assumes "firstAttempt p env wm s c = (r1, wm1, s1)"
    and "testConnection p env wm s c = (ok, wm', s')"
    and "getAccessToken p env s1 (cred_id c) (cred_clientId c) (cred_clientSecret c) True
           = (refreshed, sA)"
    and "initializeClient p env wm1 sA c = (initialized, wmB, sB)"
    and "getAccessToken p env sB (cred_id c) (cred_clientId c) (cred_clientSecret c) False
           = (retryToken, sC)"
    and "getDirectoryContents env sC = (listed, sD)"
  shows "forced_refreshes s1 = forced_refreshes s \<and>
         initializations s1 = initializations s + 1 \<and>
         listings s1 \<le> listings s + 1 \<and>
         ((\<exists>n. r1 = Inr n) \<longrightarrow> ok \<and> wm' = wm1 \<and> s' = s1) \<and>
         ((\<exists>e. r1 = Inl e \<and> \<not> (status e = Some 401 \<and> cred_authType c = ''oauth2'')) \<longrightarrow>
            \<not> ok \<and> wm' = wm1 \<and> s' = s1) \<and>
         ((\<exists>e. r1 = Inl e \<and> status e = Some 401) \<and> cred_authType c = ''oauth2'' \<longrightarrow>
            prefix (console s1 @ [GetAccessToken (cred_id c) True, TokenRequest (cred_id c)])
              (console s') \<and>
            forced_refreshes s' = forced_refreshes s1 + 1 \<and>
            initializations s' \<le> initializations s1 + 1 \<and>
            listings s' \<le> listings s1 + 1 \<and>
            ok = (initializations s' = initializations s1 + 1 \<and>
                  listings s' = listings s1 + 1 \<and>
                  (\<exists>n. snd (webdav_server env (listings s1)) = Inr n)) \<and>
            ((\<exists>e. refreshed = Inl e) \<longrightarrow>
               \<not> ok \<and> wm' = wm1 \<and> s' = sA \<and>
               initializations s' = initializations s1 \<and> listings s' = listings s1) \<and>
            ((\<exists>t. refreshed = Inr t) \<and> (\<exists>e. initialized = Inl e) \<longrightarrow>
               \<not> ok \<and> wm' = wmB \<and> s' = sB \<and>
               initializations s' = initializations s1 + 1 \<and> listings s' = listings s1) \<and>
            ((\<exists>t. refreshed = Inr t) \<and> initialized = Inr () \<and> (\<exists>e. retryToken = Inl e) \<longrightarrow>
               \<not> ok \<and> wm' = wmB \<and> s' = sC \<and>
               initializations s' = initializations s1 + 1 \<and> listings s' = listings s1) \<and>
            ((\<exists>t. refreshed = Inr t) \<and> initialized = Inr () \<and> (\<exists>t. retryToken = Inr t) \<longrightarrow>
               ok = (\<exists>n. listed = Inr n) \<and> wm' = wmB \<and> s' = sD \<and>
               listed = snd (webdav_server env (listings s1)) \<and>
               initializations s' = initializations s1 + 1 \<and>
               listings s' = listings s1 + 1))"
proof (intro conjI impI)
  note fc = firstAttempt_counts [OF assms(1)]
  show "forced_refreshes s1 = forced_refreshes s"
    and "initializations s1 = initializations s + 1"
    and "listings s1 \<le> listings s + 1"
    by (rule fc)+
  show "ok" "wm' = wm1" "s' = s1" if "\<exists>n. r1 = Inr n"
    using that assms(1,2) by (auto simp add: testConnection_def)
  show "\<not> ok" "wm' = wm1" "s' = s1"
    if "\<exists>e. r1 = Inl e \<and> \<not> (status e = Some 401 \<and> cred_authType c = ''oauth2'')"
    using that assms(1,2) by (auto simp add: testConnection_def)
next
  assume h: "(\<exists>e. r1 = Inl e \<and> status e = Some 401) \<and> cred_authType c = ''oauth2''"
  note fc = firstAttempt_counts [OF assms(1)]
  from h have set: "wd_oauth2Manager_set wm1"
    using fc(5) by auto
  from h assms(1,2) have r: "retryWithFreshToken p env wm1 s1 c = (ok, wm', s')"
    by (auto simp add: testConnection_def)
  note rc = retryWithFreshToken_counts [OF r set]
  note ac = getAccessToken_counts [OF assms(3)]
  note bc = initializeClient_counts [OF assms(4)]
  note cc = getAccessToken_counts [OF assms(5)]
  note dc = getDirectoryContents_counts [OF assms(6)]
  show "prefix (console s1 @ [GetAccessToken (cred_id c) True, TokenRequest (cred_id c)])
      (console s')"
    and "forced_refreshes s' = forced_refreshes s1 + 1"
    and "initializations s' \<le> initializations s1 + 1"
    and "listings s' \<le> listings s1 + 1"
    and "ok = (initializations s' = initializations s1 + 1 \<and>
                  listings s' = listings s1 + 1 \<and>
                  (\<exists>n. snd (webdav_server env (listings s1)) = Inr n))"
    by (rule rc)+
  have stop1: "\<not> ok \<and> wm' = wm1 \<and> s' = sA" if "\<exists>e. refreshed = Inl e"
    using that r set assms(3) by (auto simp add: retryWithFreshToken_def)
  show "\<not> ok" "wm' = wm1" "s' = sA" if "\<exists>e. refreshed = Inl e"
    using stop1 [OF that] by blast+
  show "initializations s' = initializations s1" "listings s' = listings s1"
    if "\<exists>e. refreshed = Inl e"
    using stop1 [OF that] ac by simp_all
  have stop2: "\<not> ok \<and> wm' = wmB \<and> s' = sB"
    if "(\<exists>t. refreshed = Inr t) \<and> (\<exists>e. initialized = Inl e)"
    using that r set assms(3,4) by (auto simp add: retryWithFreshToken_def)
  show "\<not> ok" "wm' = wmB" "s' = sB"
    if "(\<exists>t. refreshed = Inr t) \<and> (\<exists>e. initialized = Inl e)"
    using stop2 [OF that] by blast+
  show "initializations s' = initializations s1 + 1" "listings s' = listings s1"
    if "(\<exists>t. refreshed = Inr t) \<and> (\<exists>e. initialized = Inl e)"
    using stop2 [OF that] ac bc by simp_all
  have stop3: "\<not> ok \<and> wm' = wmB \<and> s' = sC"
    if "(\<exists>t. refreshed = Inr t) \<and> initialized = Inr () \<and> (\<exists>e. retryToken = Inl e)"
    using that r set assms(3,4,5) by (auto simp add: retryWithFreshToken_def)
  show "\<not> ok" "wm' = wmB" "s' = sC"
    if "(\<exists>t. refreshed = Inr t) \<and> initialized = Inr () \<and> (\<exists>e. retryToken = Inl e)"
    using stop3 [OF that] by blast+
  show "initializations s' = initializations s1 + 1" "listings s' = listings s1"
    if "(\<exists>t. refreshed = Inr t) \<and> initialized = Inr () \<and> (\<exists>e. retryToken = Inl e)"
    using stop3 [OF that] ac bc cc by simp_all
  have run: "ok = (\<exists>n. listed = Inr n) \<and> wm' = wmB \<and> s' = sD"
    if "(\<exists>t. refreshed = Inr t) \<and> initialized = Inr () \<and> (\<exists>t. retryToken = Inr t)"
    using that r set assms(3,4,5,6)
    by (auto simp add: retryWithFreshToken_def split: sum.splits)
  show "ok = (\<exists>n. listed = Inr n)" "wm' = wmB" "s' = sD"
    if "(\<exists>t. refreshed = Inr t) \<and> initialized = Inr () \<and> (\<exists>t. retryToken = Inr t)"
    using run [OF that] by blast+
  show "listed = snd (webdav_server env (listings s1))"
    if "(\<exists>t. refreshed = Inr t) \<and> initialized = Inr () \<and> (\<exists>t. retryToken = Inr t)"
    using dc(4) ac bc cc by simp
  show "initializations s' = initializations s1 + 1" "listings s' = listings s1 + 1"
    if "(\<exists>t. refreshed = Inr t) \<and> initialized = Inr () \<and> (\<exists>t. retryToken = Inr t)"
    using run [OF that] ac bc cc dc by simp_all
qed

lemmas demo_run_defs =
  testConnection_def retryWithFreshToken_def firstAttempt_def initializeClient_def
  headerToken_def getDirectoryContents_def
  getAccessToken_def requestNewToken_def makeHttpsRequest_def scheduleTokenRefresh_def
  truthy_def token_requests_def listings_def isTokenRequest_def forced_refreshes_def
  isForcedRefresh_def initializations_def
  demo_platform_def demo_env_def demo_token_json_def demo_not_found_def
  demo_unauthorized_once_def fresh_manager_def start_def demo_oauth2_def demo_basic_def Let_def

lemma demo_unauthorized_first:
  "fst (firstAttempt demo_platform
     (demo_env ''access_token:T1;expires_in:3600;'' demo_unauthorized_once)
     fresh_manager start demo_oauth2) = Inl (Error ''Unauthorized'' (Some 401))"
  by (simp add: demo_run_defs)

lemma demo_unauthorized_test:
  "fst (testConnection demo_platform
     (demo_env ''access_token:T1;expires_in:3600;'' demo_unauthorized_once)
     fresh_manager start demo_oauth2) = True"
  "forced_refreshes (snd (snd (testConnection demo_platform
     (demo_env ''access_token:T1;expires_in:3600;'' demo_unauthorized_once)
     fresh_manager start demo_oauth2))) = 1"
  "initializations (snd (snd (testConnection demo_platform
     (demo_env ''access_token:T1;expires_in:3600;'' demo_unauthorized_once)
     fresh_manager start demo_oauth2))) = 2"
  "listings (snd (snd (testConnection demo_platform
     (demo_env ''access_token:T1;expires_in:3600;'' demo_unauthorized_once)
     fresh_manager start demo_oauth2))) = 2"
  by (simp_all add: demo_run_defs)

lemma demo_basic_first:
  "fst (firstAttempt demo_platform
     (demo_env ''access_token:T1;expires_in:3600;'' demo_unauthorized_once)
     fresh_manager start demo_basic) = Inl (Error ''Unauthorized'' (Some 401))"
  by (simp add: demo_run_defs)

theorem testConnection_single_retry_witness:
  "fst (testConnection demo_platform
     (demo_env ''access_token:T1;expires_in:3600;'' demo_unauthorized_once)
     fresh_manager start demo_oauth2) = True \<and>
   forced_refreshes (snd (snd (testConnection demo_platform
     (demo_env ''access_token:T1;expires_in:3600;'' demo_unauthorized_once)
     fresh_manager start demo_oauth2))) =
   forced_refreshes (snd (snd (firstAttempt demo_platform
     (demo_env ''access_token:T1;expires_in:3600;'' demo_unauthorized_once)
     fresh_manager start demo_oauth2))) + 1 \<and>
   initializations (snd (snd (testConnection demo_platform
     (demo_env ''access_token:T1;expires_in:3600;'' demo_unauthorized_once)
     fresh_manager start demo_oauth2))) = 2 \<and>
   listings (snd (snd (testConnection demo_platform
     (demo_env ''access_token:T1;expires_in:3600;'' demo_unauthorized_once)
     fresh_manager start demo_oauth2))) = 2 \<and>
   fst (testConnection demo_platform
     (demo_env ''access_token:T1;expires_in:3600;'' demo_unauthorized_once)
     fresh_manager start demo_basic) = False \<and>
   snd (testConnection demo_platform
     (demo_env ''access_token:T1;expires_in:3600;'' demo_unauthorized_once)
     fresh_manager start demo_basic) =
   snd (firstAttempt demo_platform
     (demo_env ''access_token:T1;expires_in:3600;'' demo_unauthorized_once)
     fresh_manager start demo_basic)"
proof -
  let ?env = "demo_env ''access_token:T1;expires_in:3600;'' demo_unauthorized_once"
  let ?f = "firstAttempt demo_platform ?env fresh_manager start demo_oauth2"
  let ?t = "testConnection demo_platform ?env fresh_manager start demo_oauth2"
  let ?fb = "firstAttempt demo_platform ?env fresh_manager start demo_basic"
  let ?tb = "testConnection demo_platform ?env fresh_manager start demo_basic"
  let ?A = "getAccessToken demo_platform ?env (snd (snd ?f)) (cred_id demo_oauth2)
      (cred_clientId demo_oauth2) (cred_clientSecret demo_oauth2) True"
  let ?B = "initializeClient demo_platform ?env (fst (snd ?f)) (snd ?A) demo_oauth2"
  let ?C = "getAccessToken demo_platform ?env (snd (snd ?B)) (cred_id demo_oauth2)
      (cred_clientId demo_oauth2) (cred_clientSecret demo_oauth2) False"
  let ?D = "getDirectoryContents ?env (snd ?C)"
  let ?Ab = "getAccessToken demo_platform ?env (snd (snd ?fb)) (cred_id demo_basic)
      (cred_clientId demo_basic) (cred_clientSecret demo_basic) True"
  let ?Bb = "initializeClient demo_platform ?env (fst (snd ?fb)) (snd ?Ab) demo_basic"
  let ?Cb = "getAccessToken demo_platform ?env (snd (snd ?Bb)) (cred_id demo_basic)
      (cred_clientId demo_basic) (cred_clientSecret demo_basic) False"
  let ?Db = "getDirectoryContents ?env (snd ?Cb)"
  have f: "?f = (Inl (Error ''Unauthorized'' (Some 401)), fst (snd ?f), snd (snd ?f))"
    using demo_unauthorized_first by (simp add: prod_eq_iff)
  have t: "?t = (fst ?t, fst (snd ?t), snd (snd ?t))"
    by simp
  have A: "?A = (fst ?A, snd ?A)" and B: "?B = (fst ?B, fst (snd ?B), snd (snd ?B))"
    and C: "?C = (fst ?C, snd ?C)" and D: "?D = (fst ?D, snd ?D)"
    by simp_all
  have h: "(\<exists>e. Inl (Error ''Unauthorized'' (Some 401)) = (Inl e :: js_error + nat) \<and>
      status e = Some 401) \<and> cred_authType demo_oauth2 = ''oauth2''"
    by (simp add: demo_oauth2_def)
  have fb: "?fb = (Inl (Error ''Unauthorized'' (Some 401)), fst (snd ?fb), snd (snd ?fb))"
    using demo_basic_first by (simp add: prod_eq_iff)
  have tb: "?tb = (fst ?tb, fst (snd ?tb), snd (snd ?tb))"
    by simp
  have Ab: "?Ab = (fst ?Ab, snd ?Ab)" and Bb: "?Bb = (fst ?Bb, fst (snd ?Bb), snd (snd ?Bb))"
    and Cb: "?Cb = (fst ?Cb, snd ?Cb)" and Db: "?Db = (fst ?Db, snd ?Db)"
    by simp_all
  have hb: "\<exists>e. Inl (Error ''Unauthorized'' (Some 401)) = (Inl e :: js_error + nat) \<and>
      \<not> (status e = Some 401 \<and> cred_authType demo_basic = ''oauth2'')"
    by (simp add: demo_basic_def)
  from testConnection_single_retry [OF f t A B C D] h
  have 1: "forced_refreshes (snd (snd ?t)) = forced_refreshes (snd (snd ?f)) + 1"
    by blast
  from testConnection_single_retry [OF fb tb Ab Bb Cb Db] hb
  have 2: "\<not> fst ?tb \<and> fst (snd ?tb) = fst (snd ?fb) \<and> snd (snd ?tb) = snd (snd ?fb)"
    by blast
  from 1 2 demo_unauthorized_test(1,3,4) show ?thesis
    by (simp add: prod_eq_iff)
qed

text \<open>
  C5 as stated fails: the verification of the oauth2 example fails with a 404, and
  \<^verbatim>\<open>testConnection\<close> answers false after one initialization and one listing, without a
  forced refresh.
\<close>

theorem testConnection_retry_counterexample:
  "fst (firstAttempt demo_platform
     (demo_env ''access_token:T1;expires_in:3600;'' demo_not_found)
     fresh_manager start demo_oauth2) = Inl (Error ''Not Found'' (Some 404)) \<and>
   cred_authType demo_oauth2 = ''oauth2'' \<and>
   fst (testConnection demo_platform
     (demo_env ''access_token:T1;expires_in:3600;'' demo_not_found)
     fresh_manager start demo_oauth2) = False \<and>
   forced_refreshes (snd (snd (testConnection demo_platform
     (demo_env ''access_token:T1;expires_in:3600;'' demo_not_found)
     fresh_manager start demo_oauth2))) = 0 \<and>
   initializations (snd (snd (testConnection demo_platform
     (demo_env ''access_token:T1;expires_in:3600;'' demo_not_found)
     fresh_manager start demo_oauth2))) = 1 \<and>
   listings (snd (snd (testConnection demo_platform
     (demo_env ''access_token:T1;expires_in:3600;'' demo_not_found)
     fresh_manager start demo_oauth2))) = 1"
  by (simp add: demo_run_defs)

end
